theory Spec2Isabelle
  imports Main
begin

section \<open>ACME task orchestration: data model\<close>

text \<open>
  The development follows the DAO of table \<open>edgeACMETasks\<close> (package \<open>acme\<close>,
  type \<open>ACMETaskDAO\<close>). The task table is modelled in memory; every collaborator
  that lives outside that file (certificate, policy, server, log and authentication
  DAOs, the ACME client, the HTTP client, the JSON codec) is an oracle of the
  environment, and every effectful call to one of them is appended to a trace.
  Go's \<open>int64\<close> identifiers and unix times are \<open>int\<close>; the one place where 64-bit
  wrap-around can occur (the duration arithmetic of \<open>FindIssueACMETask\<close>) writes it out.
\<close>

type_synonym err = string

abbreviation (input) ACMETaskStateEnabled :: int where "ACMETaskStateEnabled \<equiv> 1"
abbreviation (input) ACMETaskStateDisabled :: int where "ACMETaskStateDisabled \<equiv> 0"
abbreviation (input) ACMETaskStatusPending :: int where "ACMETaskStatusPending \<equiv> 0"
abbreviation (input) ACMETaskStatusDone :: int where "ACMETaskStatusDone \<equiv> 1"
abbreviation (input) ACMETaskStatusRunning :: int where "ACMETaskStatusRunning \<equiv> 2"
abbreviation (input) ACMETaskStatusIssueFailed :: int where "ACMETaskStatusIssueFailed \<equiv> 3"

text \<open>A row of \<open>edgeACMETasks\<close>; \<open>task_Domains\<close> is the JSON text of the column.\<close>

record ACMETask =
  task_Id :: int
  task_AdminId :: int
  task_UserId :: int
  task_IsOn :: bool
  task_AcmeUserId :: int
  task_DnsProviderId :: int
  task_DnsDomain :: string
  task_Domains :: string
  task_CreatedAt :: int
  task_CertId :: int
  task_AutoRenew :: bool
  task_AuthType :: string
  task_AuthURL :: string
  task_State :: int
  task_Status :: int
  task_Async :: bool

text \<open>
  The message a run returns. The source builds it from a fixed (Chinese) prefix and,
  where present, the text of the underlying error; each constructor stands for one
  prefix, in the order of the source, and carries that text. \<open>NoMsg\<close> is the empty string.
\<close>

datatype errMsg =
    NoMsg
  | QueryTaskError err
  | TaskNotFound
  | TaskNotOn
  | TaskAlreadyDone
  | QueryUserError err
  | UserNotFound
  | ProviderUnavailable
  | QueryAccountError err
  | ParsePrivateKeyError err
  | SetRegistrationError err
  | QueryDNSProviderError err
  | DNSProviderNotFound
  | DNSProviderTypeUnsupported string
  | DecodeAPIParamsError err
  | DNSAuthError err
  | IssueError err
  | AnalyzeCertError err
  | QueryBoundCertError err
  | CertDeleted
  | DisableTaskError err
  | UpdateCertError err
  | CreateCertError err
  | UpdateCertACMEError err
  | BindCertError err

record SSLCertRef =
  ref_IsOn :: bool
  ref_CertId :: int

text \<open>The fields of a certificate row (\<open>models.SSLCert\<close>) that the task DAO reads.\<close>

record SSLCert =
  cert_Id :: int
  cert_IsOn :: bool
  cert_Name :: string
  cert_Description :: string
  cert_ServerName :: string
  cert_IsCA :: bool
  cert_TimeEndAt :: int

text \<open>What \<open>sslConfig.Init\<close> extracts from the issued material.\<close>

record CertInfo =
  info_TimeBeginAt :: int
  info_TimeEndAt :: int
  info_DNSNames :: "string list"
  info_CommonNames :: "string list"

record SSLCertConfig =
  cc_Id :: int
  cc_DNSNames :: "string list"
  cc_TimeEndAt :: int

record SSLPolicyConfig =
  pc_Id :: int
  pc_Certs :: "SSLCertConfig list"

record SSLPolicyRef =
  pref_IsOn :: bool
  pref_SSLPolicyId :: int

text \<open>
  \<open>serverconfigs.HTTPSProtocolConfig\<close>: only the policy reference is touched; the
  rest of the configuration is carried along as an opaque value.
\<close>

record HTTPSProtocolConfig =
  https_SSLPolicyRef :: "SSLPolicyRef option"
  https_rest :: string

text \<open>
  A server row as the binding code sees it: \<open>server_PlainServerNames\<close> is the result
  of \<open>json.Unmarshal\<close> on the column (\<open>None\<close> when it fails), \<open>server_HTTPS\<close> the
  result of \<open>DecodeHTTPS\<close> (\<open>None\<close> for nil).
\<close>

record Server =
  server_Id :: int
  server_UserId :: int
  server_PlainServerNames :: "string list option"
  server_HTTPS :: "HTTPSProtocolConfig option"

text \<open>A row of the policy table (\<open>models.SSLPolicy\<close>) as \<open>FindEnabledSSLPolicy\<close> returns it.\<close>

record SSLPolicy =
  policy_Id :: int
  policy_Http2Enabled :: bool
  policy_Http3Enabled :: bool
  policy_MinVersion :: string
  policy_Certs :: "SSLCertRef list"
  policy_Hsts :: string
  policy_OcspIsOn :: int
  policy_ClientAuthType :: int
  policy_ClientCACerts :: string
  policy_CipherSuitesIsOn :: int
  policy_CipherSuites :: "string list"

text \<open>The arguments of one call of \<open>SSLPolicyDAO.UpdatePolicy\<close>, in the order of its parameters.\<close>

record UpdatePolicyArgs =
  up_policyId :: int
  up_http2Enabled :: bool
  up_http3Enabled :: bool
  up_minVersion :: string
  up_certsJSON :: "SSLCertRef list"
  up_hstsJSON :: string
  up_ocspIsOn :: bool
  up_clientAuthType :: int
  up_clientCACertsJSON :: string
  up_cipherSuitesIsOn :: bool
  up_cipherSuites :: "string list"

text \<open>The arguments of one call of \<open>SSLPolicyDAO.CreatePolicy\<close>.\<close>

record CreatePolicyArgs =
  cp_adminId :: int
  cp_userId :: int
  cp_http2Enabled :: bool
  cp_http3Enabled :: bool
  cp_minVersion :: string
  cp_certsJSON :: "SSLCertRef list"
  cp_hstsJSON :: string
  cp_ocspIsOn :: bool
  cp_clientAuthType :: int
  cp_clientCACertsJSON :: string
  cp_cipherSuitesIsOn :: bool
  cp_cipherSuites :: "string list"

record ACMEUser =
  user_Id :: int
  user_Email :: string
  user_PrivateKey :: string
  user_ProviderCode :: string
  user_AccountId :: int
  user_Registration :: string

record ACMEProviderAccount =
  account_EabKid :: string
  account_EabKey :: string

record DNSProvider =
  dns_Id :: int
  dns_Type :: string
  dns_MinTTL :: int
  dns_ApiParams :: string

text \<open>\<open>acmeutils.Task\<close>, the job handed to the ACME client.\<close>

record acmeTask =
  at_User :: ACMEUser
  at_PrivateKey :: string
  at_AuthType :: string
  at_DNSProvider :: "DNSProvider option"
  at_DNSDomain :: string
  at_Domains :: "string list"
  at_Provider :: string
  at_Account :: "ACMEProviderAccount option"

text \<open>
  Effectful calls to collaborators, in the order they are made. \<open>LogsError\<close> is
  \<open>logs.Error\<close>/\<open>logs.Errorf\<close>, \<open>RemoteLog\<close> is \<open>remotelogs.Error\<close>, \<open>HttpDo\<close> is
  \<open>client.Do(req)\<close> with the request's URL and body.
\<close>

datatype call =
    CreateACMETaskLog int bool errMsg
  | CreateAuth int string string string
  | HttpDo string string
  | UpdateACMEUserRegistration int string
  | UpdateCert int SSLCert string string CertInfo
  | CreateCert int int string string string CertInfo
  | UpdateCertACME int int
  | DisableSSLCert int
  | CreatePolicy CreatePolicyArgs
  | UpdateServerHTTPS int HTTPSProtocolConfig
  | UpdatePolicy UpdatePolicyArgs
  | LogsError err
  | RemoteLog string

text \<open>
  The world a DAO call runs in: the task table, the process-wide in-flight set
  \<open>runningTaskMap\<close>, and the trace of calls made so far.
\<close>

record state =
  tasks :: "ACMETask list"
  runningTaskMap :: "int set"
  trace :: "call list"

text \<open>The statements of the task DAO, for the storage-failure oracle.\<close>

datatype dbop =
    Op_EnableACMETask
  | Op_DisableACMETask
  | Op_FindEnabledACMETask
  | Op_DisableAllTasksWithCertId
  | Op_CreateACMETask
  | Op_UpdateACMETask
  | Op_UpdateACMETaskCert
  | Op_FindIssueACMETask
  | Op_UpdateStatus int

text \<open>
  The environment: what the collaborators answer. Each oracle sees the current state
  (table and trace), so an answer may depend on everything that happened before.
  \<open>session_offset\<close> is the time zone of the database session: the offset from UTC, in
  seconds, that it applies at a given unix time; \<open>FROM_UNIXTIME_max\<close> is the last unix
  time \<open>FROM_UNIXTIME\<close> renders (2147483647 or 32536771199, depending on the server).
  An \<open>err option\<close> is Go's \<open>error\<close> (\<open>None\<close> for nil); \<open>err + 'a\<close> is a result with an
  error; an inner \<open>option\<close> is a pointer that may be nil. \<open>json.Marshal\<close> of the
  certificate references and of the HTTPS configuration (plain structs) is taken to
  succeed, and the encoded value is represented by the value itself.
\<close>

record env =
  db_err :: "state \<Rightarrow> dbop \<Rightarrow> err option"
  session_offset :: "int \<Rightarrow> int"
  FROM_UNIXTIME_max :: int
  json_Marshal_domains :: "string list \<Rightarrow> err + string"
  DefaultProviderCode :: string
  AuthTypeDNS :: string
  AuthTypeHTTP :: string
  FindEnabledACMEUser :: "state \<Rightarrow> int \<Rightarrow> err + ACMEUser option"
  FindRandomACMEUserWithSameProvider :: "state \<Rightarrow> string \<Rightarrow> ACMEUser option"
  FindProviderWithCode :: "string \<Rightarrow> bool"
  FindEnabledACMEProviderAccount :: "state \<Rightarrow> int \<Rightarrow> err + ACMEProviderAccount option"
  ParsePrivateKeyFromBase64 :: "string \<Rightarrow> err + string"
  SetRegistration :: "string \<Rightarrow> err option"
  FindEnabledDNSProvider :: "state \<Rightarrow> int \<Rightarrow> err + DNSProvider option"
  dnsclients_FindProvider :: "string \<Rightarrow> int \<Rightarrow> bool"
  DecodeAPIParams :: "DNSProvider \<Rightarrow> err option"
  provider_Auth :: "DNSProvider \<Rightarrow> err option"
  DecodeDomains :: "string \<Rightarrow> string list"
  acme_registration :: "state \<Rightarrow> acmeTask \<Rightarrow> (err + string) option"
  acme_challenges :: "state \<Rightarrow> acmeTask \<Rightarrow> (string \<times> string \<times> string) list"
  acme_result :: "state \<Rightarrow> acmeTask \<Rightarrow> err + (string \<times> string)"
  CreateAuth_err :: "state \<Rightarrow> int \<Rightarrow> string \<Rightarrow> err option"
  json_Marshal_auth :: "string \<Rightarrow> string \<Rightarrow> string \<Rightarrow> err + string"
  http_NewRequest :: "string \<Rightarrow> err option"
  client_Do :: "state \<Rightarrow> string \<Rightarrow> string \<Rightarrow> err option"
  sslConfig_Init :: "string \<Rightarrow> string \<Rightarrow> err + CertInfo"
  FindEnabledSSLCert :: "state \<Rightarrow> int \<Rightarrow> err + SSLCert option"
  UpdateCert_err :: "state \<Rightarrow> int \<Rightarrow> err option"
  CreateCert_result :: "state \<Rightarrow> int \<times> err option"
  UpdateCertACME_err :: "state \<Rightarrow> int \<Rightarrow> err option"
  CreateACMETaskLog_err :: "state \<Rightarrow> int \<Rightarrow> err option"
  FindUserServerByServerName :: "state \<Rightarrow> string \<Rightarrow> err + Server list"
  ComposePolicyConfig :: "state \<Rightarrow> int \<Rightarrow> err + SSLPolicyConfig option"
  DisableSSLCert_err :: "state \<Rightarrow> int \<Rightarrow> err option"
  CreatePolicy_result :: "state \<Rightarrow> int \<times> err option"
  FindEnabledSSLPolicy :: "state \<Rightarrow> int \<Rightarrow> err + SSLPolicy option"
  UpdatePolicy_err :: "state \<Rightarrow> int \<Rightarrow> err option"

text \<open>
  A call either returns (with the state it leaves and its results) or panics (a nil
  pointer dereference), leaving the state reached so far.
\<close>

datatype 'a outcome = Returns state 'a | Panics state

fun state_of :: "'a outcome \<Rightarrow> state" where
  "state_of (Returns s r) = s"
| "state_of (Panics s) = s"

definition emit :: "call \<Rightarrow> state \<Rightarrow> state" where
  "emit c s = s\<lparr>trace := trace s @ [c]\<rparr>"


text \<open>\<open>if err != nil { logs.Error(err) }\<close> after a call that returns the state and an error.\<close>

definition logError :: "state \<times> err option \<Rightarrow> state" where
  "logError r = (case r of (s, Some e) \<Rightarrow> emit (LogsError e) s | (s, None) \<Rightarrow> s)"

section \<open>The task table\<close>

text \<open>
  \<open>Query(tx).Pk(id).Set(...).Update()\<close> and \<open>Save\<close> of an operator whose id is set
  rewrite the named columns of every row that matches; \<open>Save\<close> of an operator
  without id inserts a row under the next auto-increment id.
\<close>

definition update_rows :: "(ACMETask \<Rightarrow> bool) \<Rightarrow> (ACMETask \<Rightarrow> ACMETask) \<Rightarrow> state \<Rightarrow> state" where
  "update_rows P f s = s\<lparr>tasks := map (\<lambda>t. if P t then f t else t) (tasks s)\<rparr>"

fun max_id :: "ACMETask list \<Rightarrow> int" where
  "max_id [] = 0"
| "max_id (t # ts) = max (task_Id t) (max_id ts)"

definition EnableACMETask :: "env \<Rightarrow> state \<Rightarrow> int \<Rightarrow> state \<times> err option" where
  "EnableACMETask env s pk =
     (case db_err env s Op_EnableACMETask of
        Some e \<Rightarrow> (s, Some e)
      | None \<Rightarrow> (update_rows (\<lambda>t. task_Id t = pk)
                   (\<lambda>t. t\<lparr>task_State := ACMETaskStateEnabled\<rparr>) s, None))"

definition DisableACMETask :: "env \<Rightarrow> state \<Rightarrow> int \<Rightarrow> state \<times> err option" where
  "DisableACMETask env s pk =
     (case db_err env s Op_DisableACMETask of
        Some e \<Rightarrow> (s, Some e)
      | None \<Rightarrow> (update_rows (\<lambda>t. task_Id t = pk)
                   (\<lambda>t. t\<lparr>task_State := ACMETaskStateDisabled\<rparr>) s, None))"

definition FindEnabledACMETask :: "env \<Rightarrow> state \<Rightarrow> int \<Rightarrow> err + ACMETask option" where
  "FindEnabledACMETask env s pk =
     (case db_err env s Op_FindEnabledACMETask of
        Some e \<Rightarrow> Inl e
      | None \<Rightarrow> Inr (find (\<lambda>t. task_Id t = pk \<and> task_State t = ACMETaskStateEnabled) (tasks s)))"

definition DisableAllTasksWithCertId :: "env \<Rightarrow> state \<Rightarrow> int \<Rightarrow> state \<times> err option" where
  "DisableAllTasksWithCertId env s certId =
     (case db_err env s Op_DisableAllTasksWithCertId of
        Some e \<Rightarrow> (s, Some e)
      | None \<Rightarrow> (update_rows (\<lambda>t. task_CertId t = certId)
                   (\<lambda>t. t\<lparr>task_State := ACMETaskStateDisabled\<rparr>) s, None))"

text \<open>
  \<open>CreateACMETask\<close>. The columns the operator does not set are filled by the table,
  whose schema is not among the sources. Modelled from the spec: the initial status is
  pending, no certificate is bound (0), and \<open>createdAt\<close> is the time of creation,
  passed here as \<open>now\<close> (unix seconds).
\<close>

definition CreateACMETask ::
  "env \<Rightarrow> state \<Rightarrow> int \<Rightarrow> int \<Rightarrow> int \<Rightarrow> string \<Rightarrow> int \<Rightarrow> int \<Rightarrow> string \<Rightarrow> string list \<Rightarrow> bool
     \<Rightarrow> string \<Rightarrow> bool \<Rightarrow> state \<times> (err + int)" where
  "CreateACMETask env s now adminId userId authType acmeUserId dnsProviderId dnsDomain domains
       autoRenew authURL async =
     (case (if length domains > 0 then json_Marshal_domains env domains else Inr ''[]'') of
        Inl e \<Rightarrow> (s, Inl e)
      | Inr domainsJSON \<Rightarrow>
          (case db_err env s Op_CreateACMETask of
             Some e \<Rightarrow> (s, Inl e)
           | None \<Rightarrow>
               (let op = \<lparr> task_Id = max_id (tasks s) + 1, task_AdminId = adminId,
                           task_UserId = userId, task_IsOn = True, task_AcmeUserId = acmeUserId,
                           task_DnsProviderId = dnsProviderId, task_DnsDomain = dnsDomain,
                           task_Domains = domainsJSON, task_CreatedAt = now, task_CertId = 0,
                           task_AutoRenew = autoRenew, task_AuthType = authType,
                           task_AuthURL = authURL, task_State = ACMETaskStateEnabled,
                           task_Status = ACMETaskStatusPending, task_Async = async \<rparr>
                in (s\<lparr>tasks := tasks s @ [op]\<rparr>, Inr (task_Id op)))))"

definition UpdateACMETask ::
  "env \<Rightarrow> state \<Rightarrow> int \<Rightarrow> int \<Rightarrow> int \<Rightarrow> string \<Rightarrow> string list \<Rightarrow> bool \<Rightarrow> string
     \<Rightarrow> state \<times> err option" where
  "UpdateACMETask env s acmeTaskId acmeUserId dnsProviderId dnsDomain domains autoRenew authURL =
     (if acmeTaskId \<le> 0 then (s, Some ''invalid acmeTaskId'')
      else case (if length domains > 0 then json_Marshal_domains env domains else Inr ''[]'') of
        Inl e \<Rightarrow> (s, Some e)
      | Inr domainsJSON \<Rightarrow>
          (case db_err env s Op_UpdateACMETask of
             Some e \<Rightarrow> (s, Some e)
           | None \<Rightarrow>
               (update_rows (\<lambda>t. task_Id t = acmeTaskId)
                  (\<lambda>t. t\<lparr>task_AcmeUserId := acmeUserId, task_DnsProviderId := dnsProviderId,
                          task_DnsDomain := dnsDomain, task_Domains := domainsJSON,
                          task_AutoRenew := autoRenew, task_AuthURL := authURL\<rparr>) s, None)))"

definition UpdateACMETaskCert :: "env \<Rightarrow> state \<Rightarrow> int \<Rightarrow> int \<Rightarrow> state \<times> err option" where
  "UpdateACMETaskCert env s taskId certId =
     (if taskId \<le> 0 then (s, Some ''invalid taskId'')
      else case db_err env s Op_UpdateACMETaskCert of
        Some e \<Rightarrow> (s, Some e)
      | None \<Rightarrow> (update_rows (\<lambda>t. task_Id t = taskId) (\<lambda>t. t\<lparr>task_CertId := certId\<rparr>) s, None))"

definition UpdateStatus :: "env \<Rightarrow> state \<Rightarrow> int \<Rightarrow> int \<Rightarrow> state \<times> err option" where
  "UpdateStatus env s pk status =
     (case db_err env s (Op_UpdateStatus status) of
        Some e \<Rightarrow> (s, Some e)
      | None \<Rightarrow> (update_rows (\<lambda>t. task_Id t = pk) (\<lambda>t. t\<lparr>task_Status := status\<rparr>) s, None))"

subsection \<open>The scheduling query\<close>

text \<open>
  \<open>FindIssueACMETask\<close>. \<open>now_ns\<close> is \<open>time.Now()\<close> in nanoseconds since the epoch.
  \<open>-time.Duration(hour)*time.Hour\<close> is 64-bit arithmetic and wraps.
\<close>

definition wrap64 :: "int \<Rightarrow> int" where
  "wrap64 x = (x + 2 ^ 63) mod 2 ^ 64 - 2 ^ 63"

definition hoursAgo :: "int \<Rightarrow> int \<Rightarrow> int" where
  "hoursAgo now_ns hour = now_ns + wrap64 (wrap64 (- hour) * 3600000000000)"

text \<open>
  \<open>FROM_UNIXTIME(createdAt, '%Y-%m-%d %H:%i')\<close> prints the wall-clock minute of
  \<open>createdAt\<close> in the time zone of the database session, and is \<open>NULL\<close> for a value
  outside its range; a comparison with \<open>NULL\<close> selects nothing. The value here is the
  number of that wall-clock minute. The other side, \<open>Format("2006-01-02 15:04")\<close> of a
  UTC time, is the number of the UTC minute. Both strings have the same layout, so for
  four-digit years (every \<open>createdAt\<close> in range, and every \<open>now_ns\<close> that fits 64 bits)
  their order is the order of these two numbers.
\<close>

definition FROM_UNIXTIME_minute :: "env \<Rightarrow> int \<Rightarrow> int option" where
  "FROM_UNIXTIME_minute env createdAt =
     (if 0 \<le> createdAt \<and> createdAt \<le> FROM_UNIXTIME_max env
      then Some ((createdAt + session_offset env createdAt) div 60) else None)"

definition issuable :: "env \<Rightarrow> int \<Rightarrow> int \<Rightarrow> int list \<Rightarrow> ACMETask \<Rightarrow> bool" where
  "issuable env now_ns hour strIDs t \<longleftrightarrow>
     task_IsOn t \<and> task_Async t \<and> task_State t = ACMETaskStateEnabled \<and>
     (case FROM_UNIXTIME_minute env (task_CreatedAt t) of
        None \<Rightarrow> False
      | Some minute \<Rightarrow> minute > hoursAgo now_ns hour div 60000000000) \<and>
     task_CertId t = 0 \<and> task_Id t \<notin> set strIDs"

text \<open>\<open>Limit(limit)\<close> keeps the first \<open>limit\<close> rows of the ascending order.\<close>

definition FindIssueACMETask ::
  "env \<Rightarrow> state \<Rightarrow> int \<Rightarrow> int \<Rightarrow> int \<Rightarrow> int list \<Rightarrow> err + ACMETask list" where
  "FindIssueACMETask env s now_ns hour limit excludeTasks =
     (let excludeTasks = (if length excludeTasks = 0 then excludeTasks @ [0] else excludeTasks)
      in case db_err env s Op_FindIssueACMETask of
           Some e \<Rightarrow> Inl e
         | None \<Rightarrow> Inr (take (nat limit)
                     (sort_key task_Id (filter (issuable env now_ns hour excludeTasks) (tasks s)))))"

section \<open>Running a task\<close>

subsection \<open>Account and provider resolution\<close>

text \<open>
  \<open>runTaskWithoutLog\<close>, from the lookup of the ACME user to the choice of the account
  (with \<open>randomAcmeAccount\<close>, any enabled user of the same provider; the error of that
  lookup is not read).
\<close>

definition resolveUser :: "env \<Rightarrow> state \<Rightarrow> ACMETask \<Rightarrow> bool \<Rightarrow> errMsg + ACMEUser" where
  "resolveUser env s task randomAcmeAccount =
     (case FindEnabledACMEUser env s (task_AcmeUserId task) of
        Inl e \<Rightarrow> Inl (QueryUserError e)
      | Inr None \<Rightarrow> Inl UserNotFound
      | Inr (Some user) \<Rightarrow>
          (let user = (if length (user_ProviderCode user) = 0
                       then user\<lparr>user_ProviderCode := DefaultProviderCode env\<rparr> else user)
           in if randomAcmeAccount
              then (case FindRandomACMEUserWithSameProvider env s (user_ProviderCode user) of
                      None \<Rightarrow> Inl UserNotFound
                    | Some u \<Rightarrow> Inr u)
              else Inr user))"

text \<open>
  From \<open>FindProviderWithCode\<close> to the construction of the \<open>acmeutils.Task\<close>. When the
  task's validation type is neither DNS nor HTTP the pointer \<open>acmeTask\<close> stays nil, and
  the assignment \<open>acmeTask.Provider = acmeProvider\<close> that follows dereferences it.
\<close>

datatype resolved = Resolved acmeTask | Failed errMsg | NilTask

definition buildAcmeTask :: "env \<Rightarrow> state \<Rightarrow> ACMETask \<Rightarrow> ACMEUser \<Rightarrow> resolved" where
  "buildAcmeTask env s task user =
     (if \<not> FindProviderWithCode env (user_ProviderCode user) then Failed ProviderUnavailable
      else case (if user_AccountId user > 0
                 then (case FindEnabledACMEProviderAccount env s (user_AccountId user) of
                         Inl e \<Rightarrow> Inl (QueryAccountError e)
                       | Inr account \<Rightarrow> Inr account)
                 else Inr None) of
        Inl m \<Rightarrow> Failed m
      | Inr acmeAccount \<Rightarrow>
          (case ParsePrivateKeyFromBase64 env (user_PrivateKey user) of
             Inl e \<Rightarrow> Failed (ParsePrivateKeyError e)
           | Inr privateKey \<Rightarrow>
               (case (if length (user_Registration user) > 0
                      then SetRegistration env (user_Registration user) else None) of
                  Some e \<Rightarrow> Failed (SetRegistrationError e)
                | None \<Rightarrow>
                    (if task_AuthType task = AuthTypeDNS env then
                       (case FindEnabledDNSProvider env s (task_DnsProviderId task) of
                          Inl e \<Rightarrow> Failed (QueryDNSProviderError e)
                        | Inr None \<Rightarrow> Failed DNSProviderNotFound
                        | Inr (Some dnsProvider) \<Rightarrow>
                            (if \<not> dnsclients_FindProvider env (dns_Type dnsProvider) (dns_Id dnsProvider)
                             then Failed (DNSProviderTypeUnsupported (dns_Type dnsProvider))
                             else case DecodeAPIParams env dnsProvider of
                               Some e \<Rightarrow> Failed (DecodeAPIParamsError e)
                             | None \<Rightarrow>
                                 (case provider_Auth env dnsProvider of
                                    Some e \<Rightarrow> Failed (DNSAuthError e)
                                  | None \<Rightarrow>
                                      Resolved \<lparr> at_User = user, at_PrivateKey = privateKey,
                                        at_AuthType = AuthTypeDNS env,
                                        at_DNSProvider = Some dnsProvider,
                                        at_DNSDomain = task_DnsDomain task,
                                        at_Domains = DecodeDomains env (task_Domains task),
                                        at_Provider = user_ProviderCode user,
                                        at_Account = acmeAccount \<rparr>)))
                     else if task_AuthType task = AuthTypeHTTP env then
                       Resolved \<lparr> at_User = user, at_PrivateKey = privateKey,
                         at_AuthType = AuthTypeHTTP env, at_DNSProvider = None,
                         at_DNSDomain = [],
                         at_Domains = DecodeDomains env (task_Domains task),
                         at_Provider = user_ProviderCode user, at_Account = acmeAccount \<rparr>
                     else NilTask))))"

subsection \<open>The per-domain authorization callback\<close>

text \<open>
  The closure given to \<open>acmeRequest.OnAuth\<close>. The record is persisted first. Only
  when that succeeded and the task has an \<open>authURL\<close> is the webhook prepared:
  \<open>http.NewRequest\<close> returns a nil request together with its error, and the two
  \<open>req.Header.Set\<close> calls come before the error is looked at.
\<close>

definition OnAuth :: "env \<Rightarrow> ACMETask \<Rightarrow> int \<Rightarrow> state \<Rightarrow> string \<times> string \<times> string \<Rightarrow> unit outcome" where
  "OnAuth env task taskId s c =
     (case c of (domain, token, keyAuth) \<Rightarrow>
        (let s1 = emit (CreateAuth taskId domain token keyAuth) s
         in case CreateAuth_err env s taskId domain of
              Some e \<Rightarrow>
                Returns (emit (RemoteLog (''write authentication to database error: '' @ e)) s1) ()
            | None \<Rightarrow>
                (if length (task_AuthURL task) > 0 then
                   (case json_Marshal_auth env domain token keyAuth of
                      Inl e \<Rightarrow>
                        Returns (emit (RemoteLog (''encode auth data failed: '' @ [CHR 0x27]
                                   @ task_AuthURL task @ [CHR 0x27])) s1) ()
                    | Inr authJSON \<Rightarrow>
                        (case http_NewRequest env (task_AuthURL task) of
                           Some e \<Rightarrow> Panics s1
                         | None \<Rightarrow>
                             (let s2 = emit (HttpDo (task_AuthURL task) authJSON) s1
                              in case client_Do env s1 (task_AuthURL task) authJSON of
                                   Some e \<Rightarrow>
                                     Returns (emit (RemoteLog (''call auth url failed '' @ [CHR 0x27]
                                       @ task_AuthURL task @ [CHR 0x27] @ '': '' @ e)) s2) ()
                                 | None \<Rightarrow> Returns s2 ())))
                 else Returns s1 ())))"

text \<open>
  \<open>acmeRequest.Run()\<close>: the ACME client may first register the account (the closure
  given to \<open>NewUser\<close> then stores the registration), calls \<open>OnAuth\<close> for every challenge
  the authority issues, and returns the certificate and key, or an error.
\<close>

definition onRegistration :: "env \<Rightarrow> acmeTask \<Rightarrow> state \<Rightarrow> state" where
  "onRegistration env job s =
     (case acme_registration env s job of
        None \<Rightarrow> s
      | Some (Inl e) \<Rightarrow> s
      | Some (Inr resourceJSON) \<Rightarrow>
          emit (UpdateACMEUserRegistration (user_Id (at_User job)) resourceJSON) s)"

fun runChallenges ::
  "env \<Rightarrow> ACMETask \<Rightarrow> int \<Rightarrow> (string \<times> string \<times> string) list \<Rightarrow> state \<Rightarrow> unit outcome" where
  "runChallenges env task taskId [] s = Returns s ()"
| "runChallenges env task taskId (c # cs) s =
     (case OnAuth env task taskId s c of
        Panics s' \<Rightarrow> Panics s'
      | Returns s' u \<Rightarrow> runChallenges env task taskId cs s')"

definition acmeRequest_Run ::
  "env \<Rightarrow> ACMETask \<Rightarrow> int \<Rightarrow> acmeTask \<Rightarrow> state \<Rightarrow> (err + string \<times> string) outcome" where
  "acmeRequest_Run env task taskId job s =
     (let s1 = onRegistration env job s
      in case runChallenges env task taskId (acme_challenges env s1 job) s1 of
           Panics s' \<Rightarrow> Panics s'
         | Returns s' u \<Rightarrow> Returns s' (acme_result env s' job))"

subsection \<open>Recording the certificate\<close>

text \<open>
  \<open>runTaskWithoutLog\<close> from \<open>sslConfig.Init\<close> to the end: update the bound
  certificate in place, or create one and bind it to the task. The name and the
  description given to \<open>CreateCert\<close> are the DNS domain with a fixed suffix and a fixed
  text; the trace keeps the DNS domain.
\<close>

definition saveCert ::
  "env \<Rightarrow> state \<Rightarrow> ACMETask \<Rightarrow> int \<Rightarrow> string \<Rightarrow> string \<Rightarrow> state \<times> bool \<times> errMsg \<times> int" where
  "saveCert env s task taskId certData keyData =
     (case sslConfig_Init env certData keyData of
        Inl e \<Rightarrow> (s, False, AnalyzeCertError e, 0)
      | Inr sslConfig \<Rightarrow>
          (let resultCertId = task_CertId task in
           if resultCertId > 0 then
             (case FindEnabledSSLCert env s resultCertId of
                Inl e \<Rightarrow> (s, False, QueryBoundCertError e, resultCertId)
              | Inr None \<Rightarrow>
                  (case DisableACMETask env s taskId of
                     (s', Some e) \<Rightarrow> (s', False, DisableTaskError e, resultCertId)
                   | (s', None) \<Rightarrow> (s', False, CertDeleted, resultCertId))
              | Inr (Some cert) \<Rightarrow>
                  (let s1 = emit (UpdateCert resultCertId cert certData keyData sslConfig) s
                   in case UpdateCert_err env s resultCertId of
                        Some e \<Rightarrow> (s1, False, UpdateCertError e, resultCertId)
                      | None \<Rightarrow> (s1, True, NoMsg, resultCertId)))
           else
             (let s1 = emit (CreateCert (task_AdminId task) (task_UserId task)
                               (task_DnsDomain task) certData keyData sslConfig) s
              in case CreateCert_result env s of
                   (resultCertId, Some e) \<Rightarrow> (s1, False, CreateCertError e, resultCertId)
                 | (resultCertId, None) \<Rightarrow>
                     (let s2 = emit (UpdateCertACME resultCertId (task_Id task)) s1
                      in case UpdateCertACME_err env s1 resultCertId of
                           Some e \<Rightarrow> (s2, False, UpdateCertACMEError e, resultCertId)
                         | None \<Rightarrow>
                             (case UpdateACMETaskCert env s2 taskId resultCertId of
                                (s3, Some e) \<Rightarrow> (s3, False, BindCertError e, resultCertId)
                              | (s3, None) \<Rightarrow> (s3, True, NoMsg, resultCertId))))))"

subsection \<open>The run and its logged entry point\<close>

definition runTaskWithoutLog ::
  "env \<Rightarrow> state \<Rightarrow> int \<Rightarrow> bool \<Rightarrow> (bool \<times> errMsg \<times> int) outcome" where
  "runTaskWithoutLog env s taskId randomAcmeAccount =
     (case FindEnabledACMETask env s taskId of
        Inl e \<Rightarrow> Returns s (False, QueryTaskError e, 0)
      | Inr None \<Rightarrow> Returns s (False, TaskNotFound, 0)
      | Inr (Some task) \<Rightarrow>
          (if \<not> task_IsOn task then Returns s (False, TaskNotOn, 0)
           else if task_Status task = ACMETaskStatusDone then Returns s (False, TaskAlreadyDone, 0)
           else
             (let s1 = logError (UpdateStatus env s taskId ACMETaskStatusRunning)
              in case resolveUser env s1 task randomAcmeAccount of
                   Inl m \<Rightarrow> Returns s1 (False, m, 0)
                 | Inr user \<Rightarrow>
                     (case buildAcmeTask env s1 task user of
                        Failed m \<Rightarrow> Returns s1 (False, m, 0)
                      | NilTask \<Rightarrow> Panics s1
                      | Resolved job \<Rightarrow>
                          (case acmeRequest_Run env task taskId job s1 of
                             Panics s2 \<Rightarrow> Panics s2
                           | Returns s2 (Inl e) \<Rightarrow> Returns s2 (False, IssueError e, 0)
                           | Returns s2 (Inr (certData, keyData)) \<Rightarrow>
                               (case saveCert env s2 task taskId certData keyData of
                                  (s3, r) \<Rightarrow> Returns s3 r))))))"

text \<open>\<open>SharedACMETaskLogDAO.CreateACMETaskLog\<close> followed by \<open>if err != nil { logs.Error(err) }\<close>.\<close>

definition writeTaskLog :: "env \<Rightarrow> state \<Rightarrow> int \<Rightarrow> bool \<Rightarrow> errMsg \<Rightarrow> state" where
  "writeTaskLog env s taskId isOk msg =
     logError (emit (CreateACMETaskLog taskId isOk msg) s, CreateACMETaskLog_err env s taskId)"

definition RunTask :: "env \<Rightarrow> state \<Rightarrow> int \<Rightarrow> (bool \<times> errMsg \<times> int) outcome" where
  "RunTask env s taskId =
     (case runTaskWithoutLog env s taskId False of
        Panics s' \<Rightarrow> Panics s'
      | Returns s' (isOk, msg, resultCertId) \<Rightarrow>
          Returns (writeTaskLog env s' taskId isOk msg) (isOk, msg, resultCertId))"

section \<open>Binding the issued certificate to servers\<close>

text \<open>
  Modelled from the spec: \<open>utils.ListIsGreaterEqualThanOther\<close> is not part of the
  sources at hand. The specification reads the test as "the new certificate's domain
  coverage is a superset of the prior certificate's domain coverage".
\<close>

definition ListIsGreaterEqualThanOther :: "string list \<Rightarrow> string list \<Rightarrow> bool" where
  "ListIsGreaterEqualThanOther list other \<longleftrightarrow> list_all (\<lambda>d. d \<in> set list) other"

record ServerInfo =
  si_SSLPolicyId :: int
  si_CertIds :: "int list"
  si_UserId :: int
  si_TlsConfig :: HTTPSProtocolConfig

text \<open>
  \<open>serverMap[serverId] = info\<close>. The map is kept as a list of pairs with one entry per
  key; Go leaves the order in which a map is ranged over open, and nothing below depends on it.
\<close>

fun put :: "int \<Rightarrow> ServerInfo \<Rightarrow> (int \<times> ServerInfo) list \<Rightarrow> (int \<times> ServerInfo) list" where
  "put k v [] = [(k, v)]"
| "put k v ((k', v') # m) = (if k = k' then (k, v) # m else (k', v') # put k v m)"

text \<open>\<open>SharedSSLCertDAO.DisableSSLCert\<close> followed by \<open>if err != nil { logs.Error(err) }\<close>.\<close>

definition disableCert :: "env \<Rightarrow> state \<Rightarrow> int \<Rightarrow> state" where
  "disableCert env s certId =
     logError (emit (DisableSSLCert certId) s, DisableSSLCert_err env s certId)"

text \<open>
  The loop over \<open>sslPolicyConfig.Certs\<close>. \<open>newCert\<close> is what \<open>FindEnabledSSLCert\<close>
  returned for the issued certificate; \<open>&&\<close> reads \<open>newCert.TimeEndAt\<close> only when the
  domain test holds, and a nil \<open>newCert\<close> is dereferenced there.
\<close>

fun mergeCerts ::
  "env \<Rightarrow> string list \<Rightarrow> SSLCert option \<Rightarrow> SSLCertConfig list \<Rightarrow> int list \<Rightarrow> state
     \<Rightarrow> (int list) outcome" where
  "mergeCerts env domains newCert [] certIds s = Returns s certIds"
| "mergeCerts env domains newCert (cert # rest) certIds s =
     (if ListIsGreaterEqualThanOther domains (cc_DNSNames cert) then
        (case newCert of
           None \<Rightarrow> Panics s
         | Some nc \<Rightarrow>
             (if cc_TimeEndAt cert < cert_TimeEndAt nc
              then mergeCerts env domains newCert rest certIds (disableCert env s (cc_Id cert))
              else mergeCerts env domains newCert rest (certIds @ [cc_Id cert]) s))
      else mergeCerts env domains newCert rest (certIds @ [cc_Id cert]) s)"

text \<open>The loop over the servers found for one domain.\<close>

fun scanServers ::
  "env \<Rightarrow> string list \<Rightarrow> SSLCert option \<Rightarrow> int \<Rightarrow> Server list \<Rightarrow> (int \<times> ServerInfo) list
     \<Rightarrow> string set \<Rightarrow> state \<Rightarrow> ((int \<times> ServerInfo) list \<times> string set) outcome" where
  "scanServers env domains newCert resultCertId [] serverMap domainChecked s =
     Returns s (serverMap, domainChecked)"
| "scanServers env domains newCert resultCertId (server # rest) serverMap domainChecked s =
     (case server_PlainServerNames server of
        None \<Rightarrow> scanServers env domains newCert resultCertId rest serverMap domainChecked s
      | Some serverNames \<Rightarrow>
          (case server_HTTPS server of
             None \<Rightarrow> scanServers env domains newCert resultCertId rest serverMap
                       (domainChecked \<union> set serverNames) s
           | Some tlsConfig \<Rightarrow>
               (case (case https_SSLPolicyRef tlsConfig of
                        None \<Rightarrow> Inr None
                      | Some r \<Rightarrow> ComposePolicyConfig env s (pref_SSLPolicyId r)) of
                  Inl e \<Rightarrow> scanServers env domains newCert resultCertId rest serverMap
                             (domainChecked \<union> set serverNames) s
                | Inr None \<Rightarrow>
                    scanServers env domains newCert resultCertId rest
                      (put (server_Id server)
                         \<lparr> si_SSLPolicyId = 0, si_CertIds = [resultCertId],
                           si_UserId = server_UserId server, si_TlsConfig = tlsConfig \<rparr> serverMap)
                      (domainChecked \<union> set serverNames) s
                | Inr (Some sslPolicyConfig) \<Rightarrow>
                    (case mergeCerts env domains newCert (pc_Certs sslPolicyConfig) [] s of
                       Panics s' \<Rightarrow> Panics s'
                     | Returns s' certIds \<Rightarrow>
                         scanServers env domains newCert resultCertId rest
                           (put (server_Id server)
                              \<lparr> si_SSLPolicyId = pc_Id sslPolicyConfig,
                                si_CertIds = certIds @ [resultCertId],
                                si_UserId = server_UserId server, si_TlsConfig = tlsConfig \<rparr>
                              serverMap)
                           (domainChecked \<union> set serverNames) s'))))"

text \<open>The loop over \<open>domains\<close>; \<open>todo\<close> is what is left of it.\<close>

fun scanDomains ::
  "env \<Rightarrow> string list \<Rightarrow> SSLCert option \<Rightarrow> int \<Rightarrow> string list \<Rightarrow> (int \<times> ServerInfo) list
     \<Rightarrow> string set \<Rightarrow> state \<Rightarrow> ((int \<times> ServerInfo) list) outcome" where
  "scanDomains env domains newCert resultCertId [] serverMap domainChecked s = Returns s serverMap"
| "scanDomains env domains newCert resultCertId (domain # todo) serverMap domainChecked s =
     (if domain \<in> domainChecked
      then scanDomains env domains newCert resultCertId todo serverMap domainChecked s
      else case FindUserServerByServerName env s domain of
        Inl e \<Rightarrow> scanDomains env domains newCert resultCertId todo serverMap domainChecked s
      | Inr servers \<Rightarrow>
          (case scanServers env domains newCert resultCertId servers serverMap domainChecked s of
             Panics s' \<Rightarrow> Panics s'
           | Returns s' (serverMap', domainChecked') \<Rightarrow>
               scanDomains env domains newCert resultCertId todo serverMap' domainChecked' s'))"

text \<open>The reference list of one server: every id once, in the order of first occurrence.\<close>

fun certRefsLoop :: "int list \<Rightarrow> SSLCertRef list \<Rightarrow> (int \<Rightarrow> bool) \<Rightarrow> SSLCertRef list" where
  "certRefsLoop [] certRefs certExists = certRefs"
| "certRefsLoop (certId # rest) certRefs certExists =
     (if \<not> certExists certId
      then certRefsLoop rest (certRefs @ [\<lparr> ref_IsOn = True, ref_CertId = certId \<rparr>])
             (certExists(certId := True))
      else certRefsLoop rest certRefs certExists)"

definition buildCertRefs :: "int list \<Rightarrow> SSLCertRef list" where
  "buildCertRefs certIds = certRefsLoop certIds [] (\<lambda>certId. False)"

text \<open>\<open>int32(x)\<close> of an unsigned 32-bit column.\<close>

definition int32 :: "int \<Rightarrow> int" where
  "int32 x = (x + 2 ^ 31) mod 2 ^ 32 - 2 ^ 31"

text \<open>The arguments the update of an existing policy is called with.\<close>

definition updatePolicyArgs :: "int \<Rightarrow> SSLPolicy \<Rightarrow> SSLCertRef list \<Rightarrow> UpdatePolicyArgs" where
  "updatePolicyArgs sslPolicyId policy certRefs =
     \<lparr> up_policyId = sslPolicyId,
       up_http2Enabled = policy_Http2Enabled policy,
       up_http3Enabled = policy_Http3Enabled policy,
       up_minVersion = policy_MinVersion policy,
       up_certsJSON = certRefs,
       up_hstsJSON = policy_Hsts policy,
       up_ocspIsOn = (policy_OcspIsOn policy = 1),
       up_clientAuthType = int32 (policy_ClientAuthType policy),
       up_clientCACertsJSON = policy_ClientCACerts policy,
       up_cipherSuitesIsOn = (policy_CipherSuitesIsOn policy = 1),
       up_cipherSuites = [] \<rparr>"

definition createPolicyArgs :: "int \<Rightarrow> SSLCertRef list \<Rightarrow> CreatePolicyArgs" where
  "createPolicyArgs userId certRefs =
     \<lparr> cp_adminId = 0, cp_userId = userId, cp_http2Enabled = False, cp_http3Enabled = False,
       cp_minVersion = ''TLS 1.1'', cp_certsJSON = certRefs, cp_hstsJSON = [],
       cp_ocspIsOn = False, cp_clientAuthType = 0, cp_clientCACertsJSON = [],
       cp_cipherSuitesIsOn = False, cp_cipherSuites = [] \<rparr>"

text \<open>
  The loop over \<open>serverMap\<close>. A server without policy gets a new one and its HTTPS
  configuration is pointed at it (the error of \<open>UpdateServerHTTPS\<close> is assigned and
  never read). For a server with a policy, \<open>FindEnabledSSLPolicy\<close> may return nil
  without an error, and \<open>policy.Http2Enabled\<close> then dereferences it.
\<close>

fun bindServers :: "env \<Rightarrow> (int \<times> ServerInfo) list \<Rightarrow> state \<Rightarrow> unit outcome" where
  "bindServers env [] s = Returns s ()"
| "bindServers env ((serverId, serverInfo) # rest) s =
     (let certRefs = buildCertRefs (si_CertIds serverInfo) in
      if si_SSLPolicyId serverInfo = 0 then
        (let s1 = emit (CreatePolicy (createPolicyArgs (si_UserId serverInfo) certRefs)) s
         in case CreatePolicy_result env s of
              (policyId, Some e) \<Rightarrow> bindServers env rest (emit (LogsError e) s1)
            | (policyId, None) \<Rightarrow>
                bindServers env rest
                  (emit (UpdateServerHTTPS serverId
                     ((si_TlsConfig serverInfo)
                        \<lparr>https_SSLPolicyRef :=
                           Some \<lparr> pref_IsOn = True, pref_SSLPolicyId = policyId \<rparr>\<rparr>)) s1))
      else
        (case FindEnabledSSLPolicy env s (si_SSLPolicyId serverInfo) of
           Inl e \<Rightarrow> bindServers env rest (emit (LogsError e) s)
         | Inr None \<Rightarrow> Panics s
         | Inr (Some policy) \<Rightarrow>
             bindServers env rest
               (logError
                  (emit (UpdatePolicy (updatePolicyArgs (si_SSLPolicyId serverInfo) policy certRefs)) s,
                   UpdatePolicy_err env s (si_SSLPolicyId serverInfo)))))"

subsection \<open>The dedup-guarded entry point\<close>

definition RunTaskAndAutoBindServer ::
  "env \<Rightarrow> state \<Rightarrow> int \<Rightarrow> string list \<Rightarrow> (bool \<times> errMsg) outcome" where
  "RunTaskAndAutoBindServer env s taskId domains =
     (if taskId \<in> runningTaskMap s then Returns s (True, NoMsg)
      else case runTaskWithoutLog env s taskId True of
        Panics s' \<Rightarrow> Panics s'
      | Returns s1 (isOk, msg, resultCertId) \<Rightarrow>
          (let s2 = writeTaskLog env s1 taskId isOk msg in
           if \<not> isOk
           then Returns (logError (UpdateStatus env s2 taskId ACMETaskStatusIssueFailed)) (isOk, msg)
           else
             (let s3 = logError (UpdateStatus env s2 taskId ACMETaskStatusDone)
              in case FindEnabledSSLCert env s3 resultCertId of
                   Inl e \<Rightarrow> Returns (emit (LogsError e) s3) (isOk, msg)
                 | Inr newCert \<Rightarrow>
                     (case scanDomains env domains newCert resultCertId domains [] {} s3 of
                        Panics s' \<Rightarrow> Panics s'
                      | Returns s4 serverMap \<Rightarrow>
                          (case bindServers env serverMap s4 of
                             Panics s' \<Rightarrow> Panics s'
                           | Returns s5 u \<Rightarrow> Returns s5 (isOk, msg))))))"

section \<open>Properties of states and traces\<close>

text \<open>The calls a state has seen beyond those of an earlier state.\<close>

definition new_calls :: "state \<Rightarrow> state \<Rightarrow> call list" where
  "new_calls s s' = drop (length (trace s)) (trace s')"

text \<open>The task-log entries written so far, oldest first.\<close>

fun is_log :: "call \<Rightarrow> bool" where
  "is_log (CreateACMETaskLog taskId isOk msg) = True"
| "is_log c = False"

definition logs_of :: "state \<Rightarrow> call list" where
  "logs_of s = filter is_log (trace s)"

text \<open>A bound certificate implies status done (the invariant as the specification words it).\<close>

definition cert_implies_done :: "state \<Rightarrow> bool" where
  "cert_implies_done s \<longleftrightarrow>
     (\<forall>t \<in> set (tasks s). task_CertId t \<noteq> 0 \<longrightarrow> task_Status t = ACMETaskStatusDone)"

text \<open>Status done implies a bound certificate.\<close>

definition done_has_cert :: "state \<Rightarrow> bool" where
  "done_has_cert s \<longleftrightarrow>
     (\<forall>t \<in> set (tasks s). task_Status t = ACMETaskStatusDone \<longrightarrow> task_CertId t \<noteq> 0)"

text \<open>The certificate table hands out positive ids: a \<open>CreateCert\<close> without error returns one.\<close>

definition positive_cert_ids :: "env \<Rightarrow> bool" where
  "positive_cert_ids env \<longleftrightarrow>
     (\<forall>s. snd (CreateCert_result env s) = None \<longrightarrow> 0 < fst (CreateCert_result env s))"

section \<open>Concrete scenarios\<close>

text \<open>
  An environment in which every collaborator answers without error, one pending
  HTTP-01 task, and variations of both. They are the inputs at which the theorems
  below are instantiated and the code is evaluated.
\<close>

definition user1 :: ACMEUser where
  "user1 = \<lparr> user_Id = 1, user_Email = ''ops@example.com'', user_PrivateKey = ''a2V5'',
             user_ProviderCode = [], user_AccountId = 0, user_Registration = [] \<rparr>"

definition info1 :: CertInfo where
  "info1 = \<lparr> info_TimeBeginAt = 1700000000, info_TimeEndAt = 1707776000,
             info_DNSNames = [''a.example.com''], info_CommonNames = [] \<rparr>"

definition cert7 :: SSLCert where
  "cert7 = \<lparr> cert_Id = 7, cert_IsOn = True, cert_Name = ''a.example.com'', cert_Description = [],
             cert_ServerName = [], cert_IsCA = False, cert_TimeEndAt = 1707776000 \<rparr>"

definition policy5 :: SSLPolicy where
  "policy5 = \<lparr> policy_Id = 5, policy_Http2Enabled = True, policy_Http3Enabled = False,
               policy_MinVersion = ''TLS 1.2'', policy_Certs = [\<lparr> ref_IsOn = True, ref_CertId = 3 \<rparr>],
               policy_Hsts = [], policy_OcspIsOn = 1, policy_ClientAuthType = 0,
               policy_ClientCACerts = [], policy_CipherSuitesIsOn = 1,
               policy_CipherSuites = [''TLS_AES_128_GCM_SHA256''] \<rparr>"

text \<open>The JSON text of a list of plain host names (nothing in them needs escaping).\<close>

fun join_quoted :: "string list \<Rightarrow> string" where
  "join_quoted [] = []"
| "join_quoted [d] = CHR 0x22 # d @ [CHR 0x22]"
| "join_quoted (d # ds) = CHR 0x22 # d @ [CHR 0x22] @ '','' @ join_quoted ds"

definition env_ok :: env where
  "env_ok = \<lparr> db_err = (\<lambda>s op. None),
      session_offset = (\<lambda>t. 0),
      FROM_UNIXTIME_max = 32536771199,
      json_Marshal_domains = (\<lambda>ds. Inr (''['' @ join_quoted ds @ '']'')),
      DefaultProviderCode = ''letsencrypt'',
      AuthTypeDNS = ''dns'',
      AuthTypeHTTP = ''http'',
      FindEnabledACMEUser = (\<lambda>s i. Inr (Some user1)),
      FindRandomACMEUserWithSameProvider = (\<lambda>s code. Some (user1\<lparr>user_ProviderCode := code\<rparr>)),
      FindProviderWithCode = (\<lambda>code. True),
      FindEnabledACMEProviderAccount = (\<lambda>s i. Inr None),
      ParsePrivateKeyFromBase64 = (\<lambda>k. Inr k),
      SetRegistration = (\<lambda>r. None),
      FindEnabledDNSProvider = (\<lambda>s i. Inr None),
      dnsclients_FindProvider = (\<lambda>t i. True),
      DecodeAPIParams = (\<lambda>p. None),
      provider_Auth = (\<lambda>p. None),
      DecodeDomains = (\<lambda>j. [''a.example.com'']),
      acme_registration = (\<lambda>s j. None),
      acme_challenges = (\<lambda>s j. [(''a.example.com'', ''tok'', ''tok.thumb'')]),
      acme_result = (\<lambda>s j. Inr (''CERT'', ''KEY'')),
      CreateAuth_err = (\<lambda>s t d. None),
      json_Marshal_auth = (\<lambda>d t k. Inr (d @ t @ k)),
      http_NewRequest = (\<lambda>url. if url = ''://callback'' then Some ''missing protocol scheme'' else None),
      client_Do = (\<lambda>s url body. None),
      sslConfig_Init = (\<lambda>c k. Inr info1),
      FindEnabledSSLCert = (\<lambda>s i. Inr (if i = 7 then Some cert7 else None)),
      UpdateCert_err = (\<lambda>s i. None),
      CreateCert_result = (\<lambda>s. (7, None)),
      UpdateCertACME_err = (\<lambda>s i. None),
      CreateACMETaskLog_err = (\<lambda>s i. None),
      FindUserServerByServerName = (\<lambda>s d. Inr []),
      ComposePolicyConfig = (\<lambda>s i. Inr None),
      DisableSSLCert_err = (\<lambda>s i. None),
      CreatePolicy_result = (\<lambda>s. (9, None)),
      FindEnabledSSLPolicy = (\<lambda>s i. Inr (if i = 5 then Some policy5 else None)),
      UpdatePolicy_err = (\<lambda>s i. None) \<rparr>"

definition task1 :: ACMETask where
  "task1 = \<lparr> task_Id = 1, task_AdminId = 0, task_UserId = 2, task_IsOn = True,
      task_AcmeUserId = 1, task_DnsProviderId = 0, task_DnsDomain = [],
      task_Domains = ''[a.example.com]'', task_CreatedAt = 1700000000, task_CertId = 0,
      task_AutoRenew = True, task_AuthType = ''http'', task_AuthURL = [],
      task_State = ACMETaskStateEnabled, task_Status = ACMETaskStatusPending, task_Async = True \<rparr>"

definition s_pending :: state where
  "s_pending = \<lparr> tasks = [task1], runningTaskMap = {}, trace = [] \<rparr>"

definition s_empty :: state where
  "s_empty = \<lparr> tasks = [], runningTaskMap = {}, trace = [] \<rparr>"

text \<open>The same task while its id is in the in-flight set.\<close>

definition s_running :: state where
  "s_running = \<lparr> tasks = [task1], runningTaskMap = {1}, trace = [] \<rparr>"

text \<open>The same task with a callback URL that \<open>url.Parse\<close> rejects (no scheme before the colon).\<close>

definition s_hook :: state where
  "s_hook = \<lparr> tasks = [task1\<lparr>task_AuthURL := ''://callback''\<rparr>], runningTaskMap = {}, trace = [] \<rparr>"

text \<open>The same task with a well-formed callback URL.\<close>

definition task_url :: ACMETask where
  "task_url = task1\<lparr>task_AuthURL := ''http://hook.example.com/acme''\<rparr>"

text \<open>An environment in which the authentication table cannot be written.\<close>

definition env_auth_down :: env where
  "env_auth_down = env_ok\<lparr>CreateAuth_err := (\<lambda>s t d. Some ''connection refused'')\<rparr>"

text \<open>Two certificates of a policy: one covered by the new domains and older, one for another name.\<close>

definition cert3 :: SSLCertConfig where
  "cert3 = \<lparr> cc_Id = 3, cc_DNSNames = [''a.example.com''], cc_TimeEndAt = 1701000000 \<rparr>"

definition cert4 :: SSLCertConfig where
  "cert4 = \<lparr> cc_Id = 4, cc_DNSNames = [''z.example.org''], cc_TimeEndAt = 1701000000 \<rparr>"

text \<open>A server bound to policy 5, whose references are being replaced by certificate 7.\<close>

definition info5 :: ServerInfo where
  "info5 = \<lparr> si_SSLPolicyId = 5, si_CertIds = [7], si_UserId = 2,
             si_TlsConfig = \<lparr> https_SSLPolicyRef = Some \<lparr> pref_IsOn = True, pref_SSLPolicyId = 5 \<rparr>,
                              https_rest = [] \<rparr> \<rparr>"

text \<open>The pending task once \<open>runTaskWithoutLog\<close> has returned for it: certificate 7 is bound,
  the status is running, and neither the log entry nor the final status is written yet.\<close>

definition s_inflight :: state where
  "s_inflight = \<lparr> tasks = [task1\<lparr>task_Status := ACMETaskStatusRunning, task_CertId := 7\<rparr>],
                  runningTaskMap = {},
                  trace = [CreateAuth 1 ''a.example.com'' ''tok'' ''tok.thumb'',
                           CreateCert 0 2 [] ''CERT'' ''KEY'' info1, UpdateCertACME 7 1] \<rparr>"

text \<open>Environments in which the JSON encoder, every statement on the task table, or the
  status update alone fails, and one whose database session is eight hours east of UTC.\<close>

definition env_json_fail :: env where
  "env_json_fail = env_ok\<lparr>json_Marshal_domains := (\<lambda>ds. Inl ''unsupported value'')\<rparr>"

definition env_db_down :: env where
  "env_db_down = env_ok\<lparr>db_err := (\<lambda>s op. Some ''connection refused'')\<rparr>"

definition env_status_down :: env where
  "env_status_down =
     env_ok\<lparr>db_err := (\<lambda>s op. case op of Op_UpdateStatus status \<Rightarrow> Some ''connection refused''
                                     | _ \<Rightarrow> None)\<rparr>"

definition env_east :: env where
  "env_east = env_ok\<lparr>session_offset := (\<lambda>t. 28800)\<rparr>"

text \<open>A server named by both domains and bound to policy 5, which references certificates 3 and 4.\<close>

definition server10 :: Server where
  "server10 = \<lparr> server_Id = 10, server_UserId = 2,
                server_PlainServerNames = Some [''a.example.com'', ''b.example.com''],
                server_HTTPS = Some \<lparr> https_SSLPolicyRef = Some \<lparr> pref_IsOn = True, pref_SSLPolicyId = 5 \<rparr>,
                                       https_rest = [] \<rparr> \<rparr>"

definition env_bind :: env where
  "env_bind = env_ok\<lparr>
      FindUserServerByServerName := (\<lambda>s d. Inr (if d = ''a.example.com'' \<or> d = ''b.example.com''
                                                then [server10] else [])),
      ComposePolicyConfig := (\<lambda>s i. Inr (if i = 5 then Some \<lparr> pc_Id = 5, pc_Certs = [cert3, cert4] \<rparr>
                                           else None)) \<rparr>"

section \<open>Basic facts\<close>

lemma trace_emit [simp]: "trace (emit c s) = trace s @ [c]"
  by (simp add: emit_def)

lemma tasks_emit [simp]: "tasks (emit c s) = tasks s"
  by (simp add: emit_def)

lemma running_emit [simp]: "runningTaskMap (emit c s) = runningTaskMap s"
  by (simp add: emit_def)

lemma tasks_logError [simp]: "tasks (logError (s, e)) = tasks s"
  by (simp add: logError_def split: option.splits)

lemma running_logError [simp]: "runningTaskMap (logError (s, e)) = runningTaskMap s"
  by (simp add: logError_def split: option.splits)

lemma logs_of_emit [simp]: "logs_of (emit c s) = logs_of s @ (if is_log c then [c] else [])"
  by (simp add: logs_of_def)

lemma logs_of_logError [simp]: "logs_of (logError (s, e)) = logs_of s"
  by (simp add: logError_def split: option.splits)

lemmas scen_defs = env_ok_def s_pending_def task1_def user1_def info1_def cert7_def policy5_def
  s_empty_def s_running_def s_hook_def task_url_def env_auth_down_def cert3_def cert4_def info5_def
  s_inflight_def env_json_fail_def env_db_down_def env_status_down_def env_east_def

lemmas run_defs = RunTask_def runTaskWithoutLog_def FindEnabledACMETask_def UpdateStatus_def
  update_rows_def logError_def emit_def resolveUser_def buildAcmeTask_def acmeRequest_Run_def
  onRegistration_def OnAuth_def saveCert_def UpdateACMETaskCert_def writeTaskLog_def
  DisableACMETask_def

section \<open>The reference list has no duplicates\<close>

lemma certRefsLoop_inv:
  assumes "distinct (map ref_CertId acc)" "\<And>x. ex x \<longleftrightarrow> x \<in> set (map ref_CertId acc)"
  shows "distinct (map ref_CertId (certRefsLoop ids acc ex)) \<and>
         set (map ref_CertId (certRefsLoop ids acc ex)) = set (map ref_CertId acc) \<union> set ids"
  using assms
proof (induction ids arbitrary: acc ex)
  case Nil
  then show ?case by simp
next
  case (Cons i ids)
  show ?case
  proof (cases "ex i")
    case True
    then have "i \<in> set (map ref_CertId acc)" using Cons.prems(2) by simp
    with True Cons.IH [OF Cons.prems] show ?thesis by auto
  next
    case False
    let ?acc = "acc @ [\<lparr> ref_IsOn = True, ref_CertId = i \<rparr>]"
    let ?ex = "ex(i := True)"
    have d: "distinct (map ref_CertId ?acc)" using Cons.prems False by simp
    have e: "\<And>x. ?ex x \<longleftrightarrow> x \<in> set (map ref_CertId ?acc)"
      using Cons.prems(2) by auto
    have step: "certRefsLoop (i # ids) acc ex = certRefsLoop ids ?acc ?ex"
      using False by simp
    have ih: "distinct (map ref_CertId (certRefsLoop ids ?acc ?ex))"
      "set (map ref_CertId (certRefsLoop ids ?acc ?ex)) = set (map ref_CertId ?acc) \<union> set ids"
      using Cons.IH [OF d e] by blast+
    have "set (map ref_CertId ?acc) \<union> set ids = set (map ref_CertId acc) \<union> set (i # ids)"
      by simp
    with ih show ?thesis unfolding step by metis
  qed
qed


lemma buildCertRefs_ids:
  "distinct (map ref_CertId (buildCertRefs certIds)) \<and>
   set (map ref_CertId (buildCertRefs certIds)) = set certIds"
  unfolding buildCertRefs_def using certRefsLoop_inv [of "[]" "\<lambda>certId. False" certIds] by simp

text \<open>
  C6. Whatever list of certificate ids a server ends up with, the reference list built
  from it names every one of those ids, and none twice.
\<close>

theorem buildCertRefs_no_duplicates:
  "distinct (map ref_CertId (buildCertRefs certIds)) \<and>
   set (map ref_CertId (buildCertRefs certIds)) = set certIds"
  by (rule buildCertRefs_ids)

theorem buildCertRefs_no_duplicates_witness:
  "distinct (map ref_CertId (buildCertRefs [3, 7, 3, 7])) \<and>
   set (map ref_CertId (buildCertRefs [3, 7, 3, 7])) = {3, 7} \<and>
   buildCertRefs [3, 7, 3, 7] =
     [\<lparr> ref_IsOn = True, ref_CertId = 3 \<rparr>, \<lparr> ref_IsOn = True, ref_CertId = 7 \<rparr>]"
  using buildCertRefs_no_duplicates [of "[3, 7, 3, 7]"] by (simp add: buildCertRefs_def)

section \<open>The supersession rule\<close>

lemma trace_disableCert:
  "\<exists>evs. trace (disableCert env s i) = trace s @ DisableSSLCert i # evs \<and>
     (\<forall>j. DisableSSLCert j \<notin> set evs)"
  by (auto simp: disableCert_def logError_def split: option.splits)

lemma mergeCerts_Some:
  "\<exists>s' evs. mergeCerts env domains (Some nc) certs acc s =
       Returns s' (acc @ map cc_Id (filter (\<lambda>c. \<not> (ListIsGreaterEqualThanOther domains (cc_DNSNames c)
                                              \<and> cc_TimeEndAt c < cert_TimeEndAt nc)) certs)) \<and>
     tasks s' = tasks s \<and> runningTaskMap s' = runningTaskMap s \<and>
     trace s' = trace s @ evs \<and>
     {i. DisableSSLCert i \<in> set evs} =
        cc_Id ` {c \<in> set certs. ListIsGreaterEqualThanOther domains (cc_DNSNames c)
                                              \<and> cc_TimeEndAt c < cert_TimeEndAt nc}"
proof (induction certs arbitrary: acc s)
  case Nil
  then show ?case by simp
next
  case (Cons c certs)
  show ?case
  proof (cases "ListIsGreaterEqualThanOther domains (cc_DNSNames c) \<and> cc_TimeEndAt c < cert_TimeEndAt nc")
    case True
    obtain evs0 where e0: "trace (disableCert env s (cc_Id c)) = trace s @ DisableSSLCert (cc_Id c) # evs0"
      "\<forall>j. DisableSSLCert j \<notin> set evs0"
      using trace_disableCert by blast
    have t0: "tasks (disableCert env s (cc_Id c)) = tasks s"
         "runningTaskMap (disableCert env s (cc_Id c)) = runningTaskMap s"
      by (simp_all add: disableCert_def)
    from Cons.IH [of acc "disableCert env s (cc_Id c)"] obtain s' evs where
      r: "mergeCerts env domains (Some nc) certs acc (disableCert env s (cc_Id c)) =
       Returns s' (acc @ map cc_Id (filter (\<lambda>c. \<not> (ListIsGreaterEqualThanOther domains (cc_DNSNames c)
                                              \<and> cc_TimeEndAt c < cert_TimeEndAt nc)) certs))"
      and t: "tasks s' = tasks (disableCert env s (cc_Id c))" "runningTaskMap s' = runningTaskMap (disableCert env s (cc_Id c))"
      and tr: "trace s' = trace (disableCert env s (cc_Id c)) @ evs"
      and ev: "{i. DisableSSLCert i \<in> set evs} =
        cc_Id ` {c \<in> set certs. ListIsGreaterEqualThanOther domains (cc_DNSNames c)
                                              \<and> cc_TimeEndAt c < cert_TimeEndAt nc}"
      by blast
    have "{i. DisableSSLCert i \<in> set (DisableSSLCert (cc_Id c) # evs0 @ evs)} =
        cc_Id ` {c' \<in> set (c # certs). ListIsGreaterEqualThanOther domains (cc_DNSNames c')
                                              \<and> cc_TimeEndAt c' < cert_TimeEndAt nc}"
      using ev e0(2) True by auto
    moreover have "trace s' = trace s @ (DisableSSLCert (cc_Id c) # evs0 @ evs)"
      using tr e0(1) by simp
    ultimately show ?thesis using True r t t0 by (intro exI [of _ s'] exI [of _ "DisableSSLCert (cc_Id c) # evs0 @ evs"]) simp
  next
    case False
    from Cons.IH [of "acc @ [cc_Id c]" s] obtain s' evs where
      r: "mergeCerts env domains (Some nc) certs (acc @ [cc_Id c]) s =
       Returns s' ((acc @ [cc_Id c]) @ map cc_Id (filter (\<lambda>c. \<not> (ListIsGreaterEqualThanOther domains (cc_DNSNames c)
                                              \<and> cc_TimeEndAt c < cert_TimeEndAt nc)) certs))"
      and t: "tasks s' = tasks s" "runningTaskMap s' = runningTaskMap s"
      and tr: "trace s' = trace s @ evs"
      and ev: "{i. DisableSSLCert i \<in> set evs} =
        cc_Id ` {c \<in> set certs. ListIsGreaterEqualThanOther domains (cc_DNSNames c)
                                              \<and> cc_TimeEndAt c < cert_TimeEndAt nc}"
      by blast
    have "{i. DisableSSLCert i \<in> set evs} =
        cc_Id ` {c' \<in> set (c # certs). ListIsGreaterEqualThanOther domains (cc_DNSNames c')
                                              \<and> cc_TimeEndAt c' < cert_TimeEndAt nc}"
      using ev False by auto
    then show ?thesis using False r t tr by (intro exI [of _ s'] exI [of _ evs]) auto
  qed
qed


lemma ListIsGreaterEqualThanOther_subset:
  "ListIsGreaterEqualThanOther list other \<longleftrightarrow> set other \<subseteq> set list"
  by (auto simp: ListIsGreaterEqualThanOther_def list_all_iff)

lemma kept_iff:
  assumes "c \<in> set certs" and "inj_on f (set certs)"
  shows "f c \<in> set (map f (filter (\<lambda>c. \<not> P c) certs)) \<longleftrightarrow> \<not> P c"
proof
  assume "f c \<in> set (map f (filter (\<lambda>c. \<not> P c) certs))"
  then obtain c' where c': "c' \<in> set certs" "\<not> P c'" "f c' = f c"
    by auto
  from assms c'(1,3) have "c' = c" by (simp add: inj_on_def)
  with c'(2) show "\<not> P c" by simp
next
  assume "\<not> P c"
  with assms(1) show "f c \<in> set (map f (filter (\<lambda>c. \<not> P c) certs))" by simp
qed

lemma image_iff_inj:
  assumes "c \<in> set certs" and "inj_on f (set certs)"
  shows "f c \<in> f ` {c \<in> set certs. P c} \<longleftrightarrow> P c"
proof
  assume "f c \<in> f ` {c \<in> set certs. P c}"
  then obtain c' where c': "c' \<in> set certs" "P c'" "f c' = f c"
    by auto
  from assms c'(1,3) have "c' = c" by (simp add: inj_on_def)
  with c'(2) show "P c" by simp
next
  assume "P c"
  with assms(1) show "f c \<in> f ` {c \<in> set certs. P c}" by simp
qed

text \<open>
  What the loop decides, in terms of the domain list the entry point was called with:
  a certificate of the policy other than the issued one is left out of the reference
  list, and \<open>DisableSSLCert\<close> is called for it, exactly when that domain list covers
  all of its names and it expires strictly before the new certificate; otherwise it
  stays referenced and is not disabled. The new certificate is always referenced.
\<close>

lemma mergeCerts_rule:
  assumes "c \<in> set certs" and "distinct (map cc_Id certs)" and "cc_Id c \<noteq> resultCertId"
  shows "\<exists>s' certIds.
     mergeCerts env domains (Some newCert) certs [] s = Returns s' certIds \<and>
     resultCertId \<in> set (map ref_CertId (buildCertRefs (certIds @ [resultCertId]))) \<and>
     (if set (cc_DNSNames c) \<subseteq> set domains \<and> cc_TimeEndAt c < cert_TimeEndAt newCert
      then cc_Id c \<notin> set (map ref_CertId (buildCertRefs (certIds @ [resultCertId]))) \<and>
           DisableSSLCert (cc_Id c) \<in> set (new_calls s s')
      else cc_Id c \<in> set (map ref_CertId (buildCertRefs (certIds @ [resultCertId]))) \<and>
           DisableSSLCert (cc_Id c) \<notin> set (new_calls s s'))"
proof -
  let ?sup = "\<lambda>c. ListIsGreaterEqualThanOther domains (cc_DNSNames c)
                   \<and> cc_TimeEndAt c < cert_TimeEndAt newCert"
  let ?ids = "map cc_Id (filter (\<lambda>c. \<not> ?sup c) certs)"
  from mergeCerts_Some [of env domains newCert certs "[]" s]
  obtain s' where "\<exists>evs. mergeCerts env domains (Some newCert) certs [] s =
          Returns s' ([] @ ?ids) \<and>
     tasks s' = tasks s \<and> runningTaskMap s' = runningTaskMap s \<and>
     trace s' = trace s @ evs \<and>
     {i. DisableSSLCert i \<in> set evs} = cc_Id ` {c \<in> set certs. ?sup c}" ..
  then obtain evs where h: "mergeCerts env domains (Some newCert) certs [] s =
          Returns s' ([] @ ?ids) \<and>
     tasks s' = tasks s \<and> runningTaskMap s' = runningTaskMap s \<and>
     trace s' = trace s @ evs \<and>
     {i. DisableSSLCert i \<in> set evs} = cc_Id ` {c \<in> set certs. ?sup c}" ..
  from h have r: "mergeCerts env domains (Some newCert) certs [] s = Returns s' ?ids"
    by simp
  from h have tr: "trace s' = trace s @ evs" by simp
  from h have ev: "{i. DisableSSLCert i \<in> set evs} = cc_Id ` {c \<in> set certs. ?sup c}" by simp
  have nc: "new_calls s s' = evs" using tr by (simp add: new_calls_def)
  have inj: "inj_on cc_Id (set certs)" using assms(2) by (simp add: distinct_map)
  have kept: "cc_Id c \<in> set ?ids \<longleftrightarrow> \<not> ?sup c"
    using assms(1) inj by (rule kept_iff)
  have "cc_Id c \<in> {i. DisableSSLCert i \<in> set evs} \<longleftrightarrow> ?sup c"
    unfolding ev using assms(1) inj by (rule image_iff_inj)
  then have dis: "DisableSSLCert (cc_Id c) \<in> set (new_calls s s') \<longleftrightarrow> ?sup c"
    unfolding nc by simp
  have refs: "set (map ref_CertId (buildCertRefs (?ids @ [resultCertId]))) = set ?ids \<union> {resultCertId}"
    using buildCertRefs_ids [of "?ids @ [resultCertId]"] by simp
  have new: "resultCertId \<in> set (map ref_CertId (buildCertRefs (?ids @ [resultCertId])))"
    unfolding refs by simp
  have old: "cc_Id c \<in> set (map ref_CertId (buildCertRefs (?ids @ [resultCertId]))) \<longleftrightarrow> \<not> ?sup c"
    unfolding refs using kept assms(3) by simp
  have sup: "?sup c \<longleftrightarrow> set (cc_DNSNames c) \<subseteq> set domains \<and> cc_TimeEndAt c < cert_TimeEndAt newCert"
    by (simp add: ListIsGreaterEqualThanOther_subset)
  show ?thesis
  proof (intro exI conjI)
    show "mergeCerts env domains (Some newCert) certs [] s = Returns s' ?ids" by (rule r)
    show "resultCertId \<in> set (map ref_CertId (buildCertRefs (?ids @ [resultCertId])))" by (rule new)
    show "if set (cc_DNSNames c) \<subseteq> set domains \<and> cc_TimeEndAt c < cert_TimeEndAt newCert
      then cc_Id c \<notin> set (map ref_CertId (buildCertRefs (?ids @ [resultCertId]))) \<and>
           DisableSSLCert (cc_Id c) \<in> set (new_calls s s')
      else cc_Id c \<in> set (map ref_CertId (buildCertRefs (?ids @ [resultCertId]))) \<and>
           DisableSSLCert (cc_Id c) \<notin> set (new_calls s s')"
      unfolding old dis sup by simp
  qed
qed

lemma mergeCerts_example:
  "mergeCerts env_ok [''a.example.com'', ''b.example.com''] (Some cert7) [cert3, cert4] [] s_empty
     = Returns \<lparr> tasks = [], runningTaskMap = {}, trace = [DisableSSLCert 3] \<rparr> [4] \<and>
   buildCertRefs ([4] @ [7]) = [\<lparr> ref_IsOn = True, ref_CertId = 4 \<rparr>, \<lparr> ref_IsOn = True, ref_CertId = 7 \<rparr>]"
  by (simp add: scen_defs ListIsGreaterEqualThanOther_def disableCert_def logError_def emit_def
        buildCertRefs_def)

text \<open>The whole entry point on a server whose policy references both certificates.\<close>

lemma binding_example:
  "RunTaskAndAutoBindServer env_bind s_pending 1 [''a.example.com'', ''b.example.com''] =
     Returns \<lparr> tasks = [task1\<lparr>task_Status := ACMETaskStatusDone, task_CertId := 7\<rparr>],
               runningTaskMap = {},
               trace = [CreateAuth 1 ''a.example.com'' ''tok'' ''tok.thumb'',
                        CreateCert 0 2 [] ''CERT'' ''KEY'' info1, UpdateCertACME 7 1,
                        CreateACMETaskLog 1 True NoMsg,
                        DisableSSLCert 3,
                        UpdatePolicy \<lparr> up_policyId = 5, up_http2Enabled = True,
                          up_http3Enabled = False, up_minVersion = ''TLS 1.2'',
                          up_certsJSON = [\<lparr> ref_IsOn = True, ref_CertId = 4 \<rparr>,
                                          \<lparr> ref_IsOn = True, ref_CertId = 7 \<rparr>],
                          up_hstsJSON = [], up_ocspIsOn = True, up_clientAuthType = 0,
                          up_clientCACertsJSON = [], up_cipherSuitesIsOn = True,
                          up_cipherSuites = [] \<rparr>] \<rparr> (True, NoMsg)"
  by (simp add: RunTaskAndAutoBindServer_def env_bind_def server10_def scen_defs run_defs
        ListIsGreaterEqualThanOther_def disableCert_def buildCertRefs_def updatePolicyArgs_def
        int32_def)

text \<open>
  C3. The entry point is called for a.example.com and z.example.org, while the
  certificate issued for the task covers a.example.com alone. Certificate 4 of the
  server's policy is for z.example.org, which the new certificate does not cover;
  it is disabled all the same and left out of the reference list written back,
  because the loop tests the names of the prior certificate against the domain list
  of the call, not against the names of the new certificate.
\<close>

theorem RunTaskAndAutoBindServer_drops_uncovered_cert:
  "sslConfig_Init env_bind ''CERT'' ''KEY'' = Inr info1 \<and>
   info_DNSNames info1 = [''a.example.com''] \<and>
   ComposePolicyConfig env_bind s_empty 5 = Inr (Some \<lparr> pc_Id = 5, pc_Certs = [cert3, cert4] \<rparr>) \<and>
   cc_DNSNames cert4 = [''z.example.org''] \<and>
   \<not> set (cc_DNSNames cert4) \<subseteq> set (info_DNSNames info1) \<and>
   new_calls s_pending
     (state_of (RunTaskAndAutoBindServer env_bind s_pending 1 [''a.example.com'', ''z.example.org''])) =
     [CreateAuth 1 ''a.example.com'' ''tok'' ''tok.thumb'',
      CreateCert 0 2 [] ''CERT'' ''KEY'' info1, UpdateCertACME 7 1,
      CreateACMETaskLog 1 True NoMsg,
      DisableSSLCert 3, DisableSSLCert 4,
      UpdatePolicy \<lparr> up_policyId = 5, up_http2Enabled = True,
        up_http3Enabled = False, up_minVersion = ''TLS 1.2'',
        up_certsJSON = [\<lparr> ref_IsOn = True, ref_CertId = 7 \<rparr>],
        up_hstsJSON = [], up_ocspIsOn = True, up_clientAuthType = 0,
        up_clientCACertsJSON = [], up_cipherSuitesIsOn = True,
        up_cipherSuites = [] \<rparr>]"
  by (simp add: RunTaskAndAutoBindServer_def env_bind_def server10_def scen_defs run_defs
        ListIsGreaterEqualThanOther_def disableCert_def buildCertRefs_def updatePolicyArgs_def
        int32_def new_calls_def)

section \<open>The authorization callback\<close>

text \<open>
  C10. When persisting the authentication record fails, the callback logs the failure
  and returns: no webhook request is made, whatever the task's callback URL, and the
  ACME client goes on with the remaining challenges.
\<close>

theorem OnAuth_persist_error_skips_webhook:
  assumes "CreateAuth_err env s taskId domain = Some e"
  shows "OnAuth env task taskId s (domain, token, keyAuth) =
           Returns (emit (RemoteLog (''write authentication to database error: '' @ e))
                      (emit (CreateAuth taskId domain token keyAuth) s)) () \<and>
         new_calls s (state_of (OnAuth env task taskId s (domain, token, keyAuth))) =
           [CreateAuth taskId domain token keyAuth,
            RemoteLog (''write authentication to database error: '' @ e)] \<and>
         runChallenges env task taskId ((domain, token, keyAuth) # cs) s =
           runChallenges env task taskId cs
             (emit (RemoteLog (''write authentication to database error: '' @ e))
                (emit (CreateAuth taskId domain token keyAuth) s))"
  using assms by (simp add: OnAuth_def new_calls_def)

theorem OnAuth_persist_error_skips_webhook_witness:
  "CreateAuth_err env_auth_down s_empty 1 ''a.example.com'' = Some ''connection refused'' \<and>
   task_AuthURL task_url = ''http://hook.example.com/acme'' \<and>
   OnAuth env_auth_down task_url 1 s_empty (''a.example.com'', ''tok'', ''tok.thumb'') =
     Returns \<lparr> tasks = [], runningTaskMap = {},
               trace = [CreateAuth 1 ''a.example.com'' ''tok'' ''tok.thumb'',
                        RemoteLog ''write authentication to database error: connection refused''] \<rparr> ()"
proof -
  have h: "CreateAuth_err env_auth_down s_empty 1 ''a.example.com'' = Some ''connection refused''"
    by (simp add: env_auth_down_def)
  show ?thesis
    using h OnAuth_persist_error_skips_webhook [OF h, of task_url "''tok''" "''tok.thumb''" "[]"]
    by (simp add: task_url_def s_empty_def emit_def)
qed

text \<open>With the record persisted and a well-formed URL, the same callback does post.\<close>

lemma OnAuth_posts_example:
  "OnAuth env_ok task_url 1 s_empty (''a.example.com'', ''tok'', ''tok.thumb'') =
     Returns \<lparr> tasks = [], runningTaskMap = {},
               trace = [CreateAuth 1 ''a.example.com'' ''tok'' ''tok.thumb'',
                        HttpDo ''http://hook.example.com/acme'' ''a.example.comtoktok.thumb''] \<rparr> ()"
  by (simp add: OnAuth_def scen_defs emit_def)

section \<open>Updating an existing policy\<close>

lemma updatePolicyArgs_frame:
  "up_http2Enabled (updatePolicyArgs i p refs) = policy_Http2Enabled p \<and>
   up_http3Enabled (updatePolicyArgs i p refs) = policy_Http3Enabled p \<and>
   up_minVersion (updatePolicyArgs i p refs) = policy_MinVersion p \<and>
   up_certsJSON (updatePolicyArgs i p refs) = refs \<and>
   up_hstsJSON (updatePolicyArgs i p refs) = policy_Hsts p \<and>
   up_ocspIsOn (updatePolicyArgs i p refs) = (policy_OcspIsOn p = 1) \<and>
   up_clientCACertsJSON (updatePolicyArgs i p refs) = policy_ClientCACerts p \<and>
   up_cipherSuitesIsOn (updatePolicyArgs i p refs) = (policy_CipherSuitesIsOn p = 1) \<and>
   up_cipherSuites (updatePolicyArgs i p refs) = []"
  by (simp add: updatePolicyArgs_def)

lemma updatePolicyArgs_clientAuthType:
  "0 \<le> policy_ClientAuthType p \<Longrightarrow> policy_ClientAuthType p < 2 ^ 31 \<Longrightarrow>
   up_clientAuthType (updatePolicyArgs i p refs) = policy_ClientAuthType p"
  by (simp add: updatePolicyArgs_def int32_def)

text \<open>
  C7. A server bound to policy 5, whose stored cipher-suite list is not empty, receives
  certificate 7 through \<open>RunTaskAndAutoBindServer\<close>: the policy update is called with
  the prior value of every setting but that list, for which nil is passed.
\<close>

theorem RunTaskAndAutoBindServer_passes_no_cipher_suites:
  "FindEnabledSSLPolicy env_bind s_empty 5 = Inr (Some policy5) \<and>
   policy_CipherSuitesIsOn policy5 = 1 \<and>
   policy_CipherSuites policy5 = [''TLS_AES_128_GCM_SHA256''] \<and>
   new_calls s_pending
     (state_of (RunTaskAndAutoBindServer env_bind s_pending 1 [''a.example.com'', ''b.example.com''])) =
     [CreateAuth 1 ''a.example.com'' ''tok'' ''tok.thumb'',
      CreateCert 0 2 [] ''CERT'' ''KEY'' info1, UpdateCertACME 7 1,
      CreateACMETaskLog 1 True NoMsg,
      DisableSSLCert 3,
      UpdatePolicy \<lparr> up_policyId = 5, up_http2Enabled = True,
        up_http3Enabled = False, up_minVersion = ''TLS 1.2'',
        up_certsJSON = [\<lparr> ref_IsOn = True, ref_CertId = 4 \<rparr>,
                        \<lparr> ref_IsOn = True, ref_CertId = 7 \<rparr>],
        up_hstsJSON = [], up_ocspIsOn = True, up_clientAuthType = 0,
        up_clientCACertsJSON = [], up_cipherSuitesIsOn = True,
        up_cipherSuites = [] \<rparr>]"
  by (simp add: RunTaskAndAutoBindServer_def env_bind_def server10_def scen_defs run_defs
        ListIsGreaterEqualThanOther_def disableCert_def buildCertRefs_def updatePolicyArgs_def
        int32_def new_calls_def)

text \<open>The loop over the servers alone, on a server already bound to policy 5.\<close>

lemma bindServers_update_example:
  "bindServers env_ok [(10, info5)] s_empty =
     Returns \<lparr> tasks = [], runningTaskMap = {},
               trace = [UpdatePolicy \<lparr> up_policyId = 5, up_http2Enabled = True,
                          up_http3Enabled = False, up_minVersion = ''TLS 1.2'',
                          up_certsJSON = [\<lparr> ref_IsOn = True, ref_CertId = 7 \<rparr>],
                          up_hstsJSON = [], up_ocspIsOn = True, up_clientAuthType = 0,
                          up_clientCACertsJSON = [], up_cipherSuitesIsOn = True,
                          up_cipherSuites = [] \<rparr>] \<rparr> () \<and>
   FindEnabledSSLPolicy env_ok s_empty 5 = Inr (Some policy5) \<and>
   policy_CipherSuitesIsOn policy5 = 1 \<and>
   policy_CipherSuites policy5 = [''TLS_AES_128_GCM_SHA256'']"
  by (simp add: scen_defs buildCertRefs_def updatePolicyArgs_def int32_def logError_def emit_def)

section \<open>Creating a task\<close>

text \<open>
  C8, as stated, fails: a call with an empty domain list is accepted, and a task whose
  domains are \<open>[]\<close> is persisted.
\<close>

theorem CreateACMETask_empty_domains_counterexample:
  "CreateACMETask env_ok s_empty 1700000000 0 2 ''http'' 1 0 [] [] True [] True =
     (\<lparr> tasks = [task1\<lparr>task_Domains := ''[]''\<rparr>], runningTaskMap = {}, trace = [] \<rparr>, Inr 1)"
  by (simp add: CreateACMETask_def scen_defs)

text \<open>
  C8, amended. \<open>CreateACMETask\<close> does not validate the domain list. The domains to
  store are the text \<open>[]\<close> for an empty list and the JSON encoding of the list
  otherwise. When the encoding fails, or the encoding succeeds and the insert fails,
  the call returns that error and the table is as it was. When both succeed, one task
  is added under a fresh id, pending, enabled, on and without certificate, carrying
  these domains, and its id is returned.
\<close>

theorem CreateACMETask_stores_domains:
  "(domains \<noteq> [] \<and> json_Marshal_domains env domains = Inl e \<longrightarrow>
      CreateACMETask env s now adminId userId authType acmeUserId dnsProviderId dnsDomain
        domains autoRenew authURL async = (s, Inl e)) \<and>
   ((domains = [] \<or> json_Marshal_domains env domains = Inr j) \<and>
    db_err env s Op_CreateACMETask = Some e \<longrightarrow>
      CreateACMETask env s now adminId userId authType acmeUserId dnsProviderId dnsDomain
        domains autoRenew authURL async = (s, Inl e)) \<and>
   ((domains = [] \<or> json_Marshal_domains env domains = Inr j) \<and>
    db_err env s Op_CreateACMETask = None \<longrightarrow>
      (\<exists>t. CreateACMETask env s now adminId userId authType acmeUserId dnsProviderId dnsDomain
                domains autoRenew authURL async = (s\<lparr>tasks := tasks s @ [t]\<rparr>, Inr (task_Id t)) \<and>
           task_Domains t = (if domains = [] then ''[]'' else j) \<and>
           task_Id t = max_id (tasks s) + 1 \<and>
           task_Status t = ACMETaskStatusPending \<and> task_CertId t = 0 \<and>
           task_State t = ACMETaskStateEnabled \<and> task_IsOn t))"
proof (intro conjI impI)
  assume "domains \<noteq> [] \<and> json_Marshal_domains env domains = Inl e"
  then show "CreateACMETask env s now adminId userId authType acmeUserId dnsProviderId dnsDomain
        domains autoRenew authURL async = (s, Inl e)"
    by (simp add: CreateACMETask_def)
next
  let ?j = "if domains = [] then ''[]'' else j"
  assume a: "(domains = [] \<or> json_Marshal_domains env domains = Inr j) \<and>
    db_err env s Op_CreateACMETask = Some e"
  then have m: "(if length domains > 0 then json_Marshal_domains env domains else Inr ''[]'') = Inr ?j"
    by auto
  show "CreateACMETask env s now adminId userId authType acmeUserId dnsProviderId dnsDomain
        domains autoRenew authURL async = (s, Inl e)"
    unfolding CreateACMETask_def m using a by simp
next
  let ?j = "if domains = [] then ''[]'' else j"
  let ?t = "\<lparr> task_Id = max_id (tasks s) + 1, task_AdminId = adminId,
              task_UserId = userId, task_IsOn = True, task_AcmeUserId = acmeUserId,
              task_DnsProviderId = dnsProviderId, task_DnsDomain = dnsDomain,
              task_Domains = ?j, task_CreatedAt = now, task_CertId = 0,
              task_AutoRenew = autoRenew, task_AuthType = authType,
              task_AuthURL = authURL, task_State = ACMETaskStateEnabled,
              task_Status = ACMETaskStatusPending, task_Async = async \<rparr>"
  assume a: "(domains = [] \<or> json_Marshal_domains env domains = Inr j) \<and>
    db_err env s Op_CreateACMETask = None"
  then have m: "(if length domains > 0 then json_Marshal_domains env domains else Inr ''[]'') = Inr ?j"
    by auto
  have "CreateACMETask env s now adminId userId authType acmeUserId dnsProviderId dnsDomain
          domains autoRenew authURL async = (s\<lparr>tasks := tasks s @ [?t]\<rparr>, Inr (task_Id ?t))"
    unfolding CreateACMETask_def m using a by simp
  then show "\<exists>t. CreateACMETask env s now adminId userId authType acmeUserId dnsProviderId dnsDomain
                domains autoRenew authURL async = (s\<lparr>tasks := tasks s @ [t]\<rparr>, Inr (task_Id t)) \<and>
           task_Domains t = (if domains = [] then ''[]'' else j) \<and>
           task_Id t = max_id (tasks s) + 1 \<and>
           task_Status t = ACMETaskStatusPending \<and> task_CertId t = 0 \<and>
           task_State t = ACMETaskStateEnabled \<and> task_IsOn t"
    by (intro exI [of _ ?t]) simp
qed

text \<open>
  The four cases at concrete inputs: an empty list, a list of two names, an encoder
  that fails, and a table that cannot be written.
\<close>

theorem CreateACMETask_stores_domains_witness:
  "db_err env_ok s_empty Op_CreateACMETask = None \<and>
   (\<exists>t. CreateACMETask env_ok s_empty 1700000000 0 2 ''http'' 1 0 [] [] True [] True =
           (s_empty\<lparr>tasks := tasks s_empty @ [t]\<rparr>, Inr (task_Id t)) \<and>
        task_Domains t = ''[]'' \<and> task_Id t = 1 \<and> task_Status t = 0 \<and> task_CertId t = 0 \<and>
        task_State t = 1 \<and> task_IsOn t) \<and>
   json_Marshal_domains env_ok [''a.example.com'', ''b.example.com''] =
     Inr (''['' @ [CHR 0x22] @ ''a.example.com'' @ [CHR 0x22] @ '','' @
          [CHR 0x22] @ ''b.example.com'' @ [CHR 0x22] @ '']'') \<and>
   (\<exists>t. CreateACMETask env_ok s_pending 1700000000 0 2 ''http'' 1 0 []
           [''a.example.com'', ''b.example.com''] True [] True =
           (s_pending\<lparr>tasks := tasks s_pending @ [t]\<rparr>, Inr (task_Id t)) \<and>
        task_Domains t = ''['' @ [CHR 0x22] @ ''a.example.com'' @ [CHR 0x22] @ '','' @
                         [CHR 0x22] @ ''b.example.com'' @ [CHR 0x22] @ '']'' \<and>
        task_Id t = 2 \<and> task_Status t = 0 \<and> task_CertId t = 0 \<and>
        task_State t = 1 \<and> task_IsOn t) \<and>
   json_Marshal_domains env_json_fail [''a.example.com''] = Inl ''unsupported value'' \<and>
   CreateACMETask env_json_fail s_pending 1700000000 0 2 ''http'' 1 0 [] [''a.example.com'']
     True [] True = (s_pending, Inl ''unsupported value'') \<and>
   db_err env_db_down s_pending Op_CreateACMETask = Some ''connection refused'' \<and>
   CreateACMETask env_db_down s_pending 1700000000 0 2 ''http'' 1 0 [] [] True [] True =
     (s_pending, Inl ''connection refused'')"
proof -
  let ?j = "''['' @ [CHR 0x22] @ ''a.example.com'' @ [CHR 0x22] @ '','' @
            [CHR 0x22] @ ''b.example.com'' @ [CHR 0x22] @ '']''"
  have h: "db_err env_ok s_empty Op_CreateACMETask = None"
    "db_err env_ok s_pending Op_CreateACMETask = None"
    "json_Marshal_domains env_ok [''a.example.com'', ''b.example.com''] = Inr ?j"
    "json_Marshal_domains env_json_fail [''a.example.com''] = Inl ''unsupported value''"
    "db_err env_db_down s_pending Op_CreateACMETask = Some ''connection refused''"
    by (simp_all add: env_ok_def env_json_fail_def env_db_down_def)
  note t = CreateACMETask_stores_domains
  from h t [where domains = "[]" and env = env_ok and e = "''x''" and j = "[]" and s = s_empty
              and now = 1700000000 and adminId = 0 and userId = 2 and authType = "''http''"
              and acmeUserId = 1 and dnsProviderId = 0 and dnsDomain = "[]"
              and autoRenew = True and authURL = "[]" and async = True]
  have 1: "\<exists>t. CreateACMETask env_ok s_empty 1700000000 0 2 ''http'' 1 0 [] [] True [] True =
           (s_empty\<lparr>tasks := tasks s_empty @ [t]\<rparr>, Inr (task_Id t)) \<and>
        task_Domains t = ''[]'' \<and> task_Id t = 1 \<and> task_Status t = 0 \<and> task_CertId t = 0 \<and>
        task_State t = 1 \<and> task_IsOn t"
    by (simp add: s_empty_def)
  from h t [where domains = "[''a.example.com'', ''b.example.com'']" and env = env_ok and e = "''x''" and j = ?j and s = s_pending
              and now = 1700000000 and adminId = 0 and userId = 2 and authType = "''http''"
              and acmeUserId = 1 and dnsProviderId = 0 and dnsDomain = "[]"
              and autoRenew = True and authURL = "[]" and async = True]
  have 2: "\<exists>t. CreateACMETask env_ok s_pending 1700000000 0 2 ''http'' 1 0 []
           [''a.example.com'', ''b.example.com''] True [] True =
           (s_pending\<lparr>tasks := tasks s_pending @ [t]\<rparr>, Inr (task_Id t)) \<and>
        task_Domains t = ?j \<and>
        task_Id t = 2 \<and> task_Status t = 0 \<and> task_CertId t = 0 \<and>
        task_State t = 1 \<and> task_IsOn t"
    by (simp add: s_pending_def task1_def)
  from h t [where domains = "[''a.example.com'']" and env = env_json_fail and e = "''unsupported value''" and j = "[]" and s = s_pending
              and now = 1700000000 and adminId = 0 and userId = 2 and authType = "''http''"
              and acmeUserId = 1 and dnsProviderId = 0 and dnsDomain = "[]"
              and autoRenew = True and authURL = "[]" and async = True]
  have 3: "CreateACMETask env_json_fail s_pending 1700000000 0 2 ''http'' 1 0 [] [''a.example.com'']
     True [] True = (s_pending, Inl ''unsupported value'')"
    by simp
  from h t [where domains = "[]" and env = env_db_down and e = "''connection refused''" and j = "[]" and s = s_pending
              and now = 1700000000 and adminId = 0 and userId = 2 and authType = "''http''"
              and acmeUserId = 1 and dnsProviderId = 0 and dnsDomain = "[]"
              and autoRenew = True and authURL = "[]" and async = True]
  have 4: "CreateACMETask env_db_down s_pending 1700000000 0 2 ''http'' 1 0 [] [] True [] True =
     (s_pending, Inl ''connection refused'')"
    by simp
  from h 1 2 3 4 show ?thesis by simp
qed

lemma max_id_fresh: "t \<in> set ts \<Longrightarrow> task_Id t \<le> max_id ts"
  by (induction ts) auto

section \<open>The scheduling query\<close>

lemma wrap64_id: "- (2 ^ 63) \<le> x \<Longrightarrow> x < 2 ^ 63 \<Longrightarrow> wrap64 x = x"
  by (simp add: wrap64_def)

lemma hoursAgo_plain:
  assumes "0 \<le> hour" "hour \<le> 2562047"
  shows "hoursAgo now_ns hour = now_ns - hour * 3600000000000"
proof -
  have a: "wrap64 (- hour) = - hour" using assms by (intro wrap64_id) auto
  have "hour * 3600000000000 \<le> 2562047 * 3600000000000" using assms by (intro mult_right_mono) auto
  then have b: "wrap64 (- hour * 3600000000000) = - hour * 3600000000000"
    using assms by (intro wrap64_id) auto
  show ?thesis unfolding hoursAgo_def a b by simp
qed

lemma minute_after: 
  fixes a h :: int
  assumes "a div 60 > h div 60000000000"
  shows "h < a * 1000000000"
proof -
  have 1: "h = 60000000000 * (h div 60000000000) + h mod 60000000000" by simp
  have 2: "h mod 60000000000 < 60000000000" by simp
  have 3: "a = 60 * (a div 60) + a mod 60" by simp
  have 4: "0 \<le> a mod 60" by simp
  show ?thesis using 1 2 3 4 assms by linarith
qed

lemma minute_within:
  fixes a h :: int
  assumes "h + 60000000000 \<le> a * 1000000000"
  shows "a div 60 > h div 60000000000"
proof -
  have 1: "h = 60000000000 * (h div 60000000000) + h mod 60000000000" by simp
  have 2: "0 \<le> h mod 60000000000" by simp
  have 3: "a = 60 * (a div 60) + a mod 60" by simp
  have 4: "a mod 60 < 60" by simp
  show ?thesis using 1 2 3 4 assms by linarith
qed

text \<open>
  C2, as stated, fails both ways: with \<open>hour = 1\<close> and the database session in UTC,
  a task created at the very second of the query is returned, and the same task is no
  longer returned two hours later.
\<close>

theorem FindIssueACMETask_staleness_counterexample:
  "task_CreatedAt task1 = 1700000000 \<and> session_offset env_ok 1700000000 = 0 \<and>
   FindIssueACMETask env_ok s_pending (1700000000 * 1000000000) 1 10 [] = Inr [task1] \<and>
   FindIssueACMETask env_ok s_pending ((1700000000 + 2 * 3600) * 1000000000) 1 10 [] = Inr []"
  by (simp add: FindIssueACMETask_def issuable_def FROM_UNIXTIME_minute_def hoursAgo_def
        wrap64_def scen_defs)

text \<open>
  C2, amended. For \<open>0 \<le> hour \<le> 2562047\<close> (beyond that the 64-bit duration wraps) and a
  query time that fits 64 bits, the query returns tasks created within the last
  \<open>hour\<close> hours, not tasks older than that. A returned task is in the table, on,
  asynchronous, enabled, without certificate and not excluded; its \<open>createdAt\<close> is in
  the range of \<open>FROM_UNIXTIME\<close>, and, moved by the UTC offset of the database session,
  lies after \<open>now - hour\<close> hours. A task with these properties whose shifted
  \<open>createdAt\<close> lies at least a minute after that instant is returned when no more than
  \<open>limit\<close> tasks qualify. (With an empty exclusion list, id 0 is excluded.)
\<close>

theorem FindIssueACMETask_recent_window:
  assumes "0 \<le> hour" and "hour \<le> 2562047" and "0 \<le> now_ns" and "now_ns < 2 ^ 63"
      and "FindIssueACMETask env s now_ns hour limit excludeTasks = Inr result"
  shows "(t \<in> set result \<longrightarrow>
            t \<in> set (tasks s) \<and> task_IsOn t \<and> task_Async t \<and>
            task_State t = ACMETaskStateEnabled \<and> task_CertId t = 0 \<and>
            task_Id t \<notin> set excludeTasks \<and>
            0 \<le> task_CreatedAt t \<and> task_CreatedAt t \<le> FROM_UNIXTIME_max env \<and>
            now_ns - hour * 3600000000000 <
              (task_CreatedAt t + session_offset env (task_CreatedAt t)) * 1000000000) \<and>
         (t \<in> set (tasks s) \<and> task_IsOn t \<and> task_Async t \<and>
            task_State t = ACMETaskStateEnabled \<and> task_CertId t = 0 \<and>
            task_Id t \<notin> set excludeTasks \<and> task_Id t \<noteq> 0 \<and>
            0 \<le> task_CreatedAt t \<and> task_CreatedAt t \<le> FROM_UNIXTIME_max env \<and>
            now_ns - hour * 3600000000000 + 60000000000 \<le>
              (task_CreatedAt t + session_offset env (task_CreatedAt t)) * 1000000000 \<and>
            length (filter (issuable env now_ns hour
                      (if excludeTasks = [] then [0] else excludeTasks)) (tasks s)) \<le> nat limit
          \<longrightarrow> t \<in> set result)"
proof -
  let ?ex = "if excludeTasks = [] then [0] else excludeTasks"
  let ?rows = "filter (issuable env now_ns hour ?ex) (tasks s)"
  let ?local = "\<lambda>t. task_CreatedAt t + session_offset env (task_CreatedAt t)"
  have exq: "(if length excludeTasks = 0 then excludeTasks @ [0] else excludeTasks) = ?ex"
    by simp
  have res: "result = take (nat limit) (sort_key task_Id ?rows)"
    using assms(5) unfolding FindIssueACMETask_def Let_def exq
    by (auto split: option.splits)
  have ha: "hoursAgo now_ns hour = now_ns - hour * 3600000000000"
    using assms(1,2) by (rule hoursAgo_plain)
  have ex: "set excludeTasks \<subseteq> set ?ex" by auto
  have 1: "t \<in> set (tasks s) \<and> task_IsOn t \<and> task_Async t \<and>
            task_State t = ACMETaskStateEnabled \<and> task_CertId t = 0 \<and>
            task_Id t \<notin> set excludeTasks \<and>
            0 \<le> task_CreatedAt t \<and> task_CreatedAt t \<le> FROM_UNIXTIME_max env \<and>
            now_ns - hour * 3600000000000 < ?local t * 1000000000" if "t \<in> set result"
  proof -
    from that have "t \<in> set (sort_key task_Id ?rows)" unfolding res by (rule in_set_takeD)
    then have m: "t \<in> set (tasks s)" and i: "issuable env now_ns hour ?ex t" by simp_all
    from i have r: "0 \<le> task_CreatedAt t \<and> task_CreatedAt t \<le> FROM_UNIXTIME_max env"
      and "hoursAgo now_ns hour div 60000000000 < ?local t div 60"
      by (auto simp: issuable_def FROM_UNIXTIME_minute_def split: option.splits if_splits)
    then have "hoursAgo now_ns hour < ?local t * 1000000000" by (intro minute_after)
    moreover from i ex have "task_Id t \<notin> set excludeTasks" by (auto simp: issuable_def)
    moreover from i have "task_IsOn t \<and> task_Async t \<and>
            task_State t = ACMETaskStateEnabled \<and> task_CertId t = 0"
      by (simp add: issuable_def)
    ultimately show ?thesis using m r unfolding ha by simp
  qed
  have 2: "t \<in> set result" if a: "t \<in> set (tasks s)" "task_IsOn t \<and> task_Async t \<and>
            task_State t = ACMETaskStateEnabled \<and> task_CertId t = 0" "task_Id t \<notin> set excludeTasks"
            "task_Id t \<noteq> 0"
            "0 \<le> task_CreatedAt t \<and> task_CreatedAt t \<le> FROM_UNIXTIME_max env"
            "now_ns - hour * 3600000000000 + 60000000000 \<le> ?local t * 1000000000"
            "length ?rows \<le> nat limit"
  proof -
    have "hoursAgo now_ns hour div 60000000000 < ?local t div 60"
      unfolding ha using a(6) by (rule minute_within)
    moreover have "task_Id t \<notin> set ?ex" using a(3,4) by auto
    ultimately have "issuable env now_ns hour ?ex t"
      using a(2,5) by (simp add: issuable_def FROM_UNIXTIME_minute_def)
    with a(1) have "t \<in> set (sort_key task_Id ?rows)" by simp
    moreover have "length (sort_key task_Id ?rows) \<le> nat limit" using a(7) by simp
    ultimately show ?thesis unfolding res by simp
  qed
  from 1 2 show ?thesis by blast
qed

theorem FindIssueACMETask_recent_window_witness:
  "(0::int) \<le> 1 \<and> (1::int) \<le> 2562047 \<and>
   (0::int) \<le> 1700000000 * 1000000000 + 600 * 1000000000 \<and>
   (1700000000 * 1000000000 + 600 * 1000000000 :: int) < 2 ^ 63 \<and>
   FindIssueACMETask env_ok s_pending (1700000000 * 1000000000 + 600 * 1000000000) 1 10 [] = Inr [task1] \<and>
   task1 \<in> set (tasks s_pending) \<and> task_IsOn task1 \<and> task_Async task1 \<and>
   task_State task1 = 1 \<and> task_CertId task1 = 0 \<and> task_Id task1 \<notin> set [] \<and>
   0 \<le> task_CreatedAt task1 \<and> task_CreatedAt task1 \<le> FROM_UNIXTIME_max env_ok \<and>
   (1700000000 * 1000000000 + 600 * 1000000000) - 1 * 3600000000000 <
     (task_CreatedAt task1 + session_offset env_ok (task_CreatedAt task1)) * 1000000000"
proof -
  have h: "(0::int) \<le> 1" "(1::int) \<le> 2562047"
    "(0::int) \<le> 1700000000 * 1000000000 + 600 * 1000000000"
    "(1700000000 * 1000000000 + 600 * 1000000000 :: int) < 2 ^ 63" by simp_all
  have r: "FindIssueACMETask env_ok s_pending (1700000000 * 1000000000 + 600 * 1000000000) 1 10 [] = Inr [task1]"
    by (simp add: FindIssueACMETask_def issuable_def FROM_UNIXTIME_minute_def hoursAgo_def
          wrap64_def scen_defs)
  show ?thesis
    using h r FindIssueACMETask_recent_window [OF h r, of task1]
    by (simp add: scen_defs)
qed

text \<open>
  The time zone of the session moves the window: eight hours east of UTC, a task
  created eight and a half hours before the query still counts as created within the
  last hour; and a \<open>createdAt\<close> beyond the range of \<open>FROM_UNIXTIME\<close> is never selected.
\<close>

lemma FindIssueACMETask_session_zone_example:
  "FindIssueACMETask env_east s_pending ((1700000000 + 30600) * 1000000000) 1 10 [] = Inr [task1] \<and>
   FindIssueACMETask env_ok s_pending ((1700000000 + 30600) * 1000000000) 1 10 [] = Inr [] \<and>
   FindIssueACMETask (env_ok\<lparr>FROM_UNIXTIME_max := 1600000000\<rparr>) s_pending
     (1700000000 * 1000000000) 1 10 [] = Inr []"
  by (simp add: FindIssueACMETask_def issuable_def FROM_UNIXTIME_minute_def hoursAgo_def
        wrap64_def scen_defs)

section \<open>What a run does to the task table and to the task log\<close>

lemma logs_of_update_rows [simp]: "logs_of (update_rows P f s) = logs_of s"
  by (simp add: update_rows_def logs_of_def)

lemma tasks_update_rows [simp]:
  "tasks (update_rows P f s) = map (\<lambda>t. if P t then f t else t) (tasks s)"
  by (simp add: update_rows_def)

lemma running_update_rows [simp]: "runningTaskMap (update_rows P f s) = runningTaskMap s"
  by (simp add: update_rows_def)

lemma logs_of_UpdateStatus [simp]: "logs_of (logError (UpdateStatus env s pk status)) = logs_of s"
  by (simp add: UpdateStatus_def split: option.splits)

lemma tasks_UpdateStatus:
  "tasks (logError (UpdateStatus env s pk status)) =
     (if db_err env s (Op_UpdateStatus status) = None
      then map (\<lambda>t. if task_Id t = pk then t\<lparr>task_Status := status\<rparr> else t) (tasks s)
      else tasks s)"
  by (auto simp: UpdateStatus_def split: option.splits)

lemma OnAuth_frame:
  "logs_of (state_of (OnAuth env task taskId s c)) = logs_of s \<and>
   tasks (state_of (OnAuth env task taskId s c)) = tasks s"
  by (cases c) (simp add: OnAuth_def Let_def split: option.splits sum.splits)

lemma runChallenges_frame:
  "logs_of (state_of (runChallenges env task taskId cs s)) = logs_of s \<and>
   tasks (state_of (runChallenges env task taskId cs s)) = tasks s"
proof (induction cs arbitrary: s)
  case Nil
  then show ?case by simp
next
  case (Cons c cs)
  show ?case
  proof (cases "OnAuth env task taskId s c")
    case (Returns s' u)
    with OnAuth_frame [of env task taskId s c] Cons.IH [of s'] show ?thesis by simp
  next
    case (Panics s')
    with OnAuth_frame [of env task taskId s c] show ?thesis by simp
  qed
qed

lemma onRegistration_frame:
  "logs_of (onRegistration env job s) = logs_of s \<and> tasks (onRegistration env job s) = tasks s"
  by (simp add: onRegistration_def split: option.splits sum.splits)

lemma acmeRequest_Run_frame:
  "logs_of (state_of (acmeRequest_Run env task taskId job s)) = logs_of s \<and>
   tasks (state_of (acmeRequest_Run env task taskId job s)) = tasks s"
proof -
  let ?s1 = "onRegistration env job s"
  show ?thesis
    using runChallenges_frame [of env task taskId "acme_challenges env ?s1 job" ?s1]
      onRegistration_frame [of env job s]
    by (cases "runChallenges env task taskId (acme_challenges env ?s1 job) ?s1")
       (simp_all add: acmeRequest_Run_def Let_def)
qed

lemma logs_of_saveCert:
  "logs_of (fst (saveCert env s task taskId certData keyData)) = logs_of s"
  by (simp add: saveCert_def Let_def DisableACMETask_def UpdateACMETaskCert_def
      split: option.splits sum.splits prod.splits)

lemma logs_of_runTaskWithoutLog:
  "logs_of (state_of (runTaskWithoutLog env s taskId r)) = logs_of s"
proof -
  let ?s1 = "logError (UpdateStatus env s taskId ACMETaskStatusRunning)"
  have run: "\<And>task job. logs_of (state_of (acmeRequest_Run env task taskId job ?s1)) = logs_of s"
    using acmeRequest_Run_frame by simp
  have "\<And>task job s2 x. acmeRequest_Run env task taskId job ?s1 = Returns s2 x \<Longrightarrow> logs_of s2 = logs_of s"
    using run by (metis state_of.simps(1))
  moreover have "\<And>task job s2. acmeRequest_Run env task taskId job ?s1 = Panics s2 \<Longrightarrow> logs_of s2 = logs_of s"
    using run by (metis state_of.simps(2))
  moreover have "\<And>s2 task c k s3 r. saveCert env s2 task taskId c k = (s3, r) \<Longrightarrow> logs_of s3 = logs_of s2"
    using logs_of_saveCert by (metis fst_conv)
  ultimately show ?thesis
    by (simp add: runTaskWithoutLog_def Let_def
        split: option.splits sum.splits prod.splits resolved.splits outcome.splits)
qed


lemma disableCert_frame:
  "logs_of (disableCert env s i) = logs_of s \<and> tasks (disableCert env s i) = tasks s"
  by (simp add: disableCert_def)

lemma mergeCerts_frame:
  "logs_of (state_of (mergeCerts env domains newCert certs acc s)) = logs_of s \<and>
   tasks (state_of (mergeCerts env domains newCert certs acc s)) = tasks s"
proof (induction certs arbitrary: acc s)
  case Nil
  then show ?case by simp
next
  case (Cons c certs)
  show ?case
    using Cons.IH [of acc "disableCert env s (cc_Id c)"] Cons.IH [of "acc @ [cc_Id c]" s]
      disableCert_frame [of env s "cc_Id c"]
    by (auto split: option.splits)
qed

lemma scanServers_frame:
  "logs_of (state_of (scanServers env domains newCert rid servers m dc s)) = logs_of s \<and>
   tasks (state_of (scanServers env domains newCert rid servers m dc s)) = tasks s"
proof (induction servers arbitrary: m dc s)
  case Nil
  then show ?case by simp
next
  case (Cons server servers)
  have mc: "\<And>certs s' ids. mergeCerts env domains newCert certs [] s = Returns s' ids \<Longrightarrow>
              logs_of s' = logs_of s \<and> tasks s' = tasks s"
    using mergeCerts_frame by (metis state_of.simps(1))
  have mp: "\<And>certs s'. mergeCerts env domains newCert certs [] s = Panics s' \<Longrightarrow>
              logs_of s' = logs_of s \<and> tasks s' = tasks s"
    using mergeCerts_frame by (metis state_of.simps(2))
  show ?case
    using Cons.IH mc mp
    by (simp split: option.splits sum.splits outcome.splits)
qed

lemma scanDomains_frame:
  "logs_of (state_of (scanDomains env domains newCert rid todo m dc s)) = logs_of s \<and>
   tasks (state_of (scanDomains env domains newCert rid todo m dc s)) = tasks s"
proof (induction todo arbitrary: m dc s)
  case Nil
  then show ?case by simp
next
  case (Cons domain todo)
  have sr: "\<And>servers s' x. scanServers env domains newCert rid servers m dc s = Returns s' x \<Longrightarrow>
              logs_of s' = logs_of s \<and> tasks s' = tasks s"
    using scanServers_frame by (metis state_of.simps(1))
  have sp: "\<And>servers s'. scanServers env domains newCert rid servers m dc s = Panics s' \<Longrightarrow>
              logs_of s' = logs_of s \<and> tasks s' = tasks s"
    using scanServers_frame by (metis state_of.simps(2))
  show ?case
    using Cons.IH sr sp
    by (simp split: option.splits sum.splits outcome.splits prod.splits)
qed

lemma bindServers_frame:
  "logs_of (state_of (bindServers env m s)) = logs_of s \<and>
   tasks (state_of (bindServers env m s)) = tasks s"
proof (induction m arbitrary: s)
  case Nil
  then show ?case by simp
next
  case (Cons p m)
  obtain serverId serverInfo where p: "p = (serverId, serverInfo)" by (cases p)
  show ?case
    unfolding p using Cons.IH
    by (simp add: Let_def split: option.splits sum.splits prod.splits)
qed

lemma logs_of_writeTaskLog:
  "logs_of (writeTaskLog env s taskId isOk msg) = logs_of s @ [CreateACMETaskLog taskId isOk msg]"
  by (simp add: writeTaskLog_def)

lemma tasks_writeTaskLog [simp]: "tasks (writeTaskLog env s taskId isOk msg) = tasks s"
  by (simp add: writeTaskLog_def)

text \<open>
  C5, as stated, fails: called for a task id that is in the in-flight set, the entry
  point returns success and writes no log entry.
\<close>

theorem RunTaskAndAutoBindServer_skip_counterexample:
  "1 \<in> runningTaskMap s_running \<and>
   RunTaskAndAutoBindServer env_ok s_running 1 [''a.example.com''] = Returns s_running (True, NoMsg) \<and>
   logs_of s_running = []"
  by (simp add: RunTaskAndAutoBindServer_def s_running_def logs_of_def)

text \<open>
  C5, amended. An invocation that finds the task id in the in-flight set returns
  \<open>(true, "")\<close> and leaves everything as it was, so it writes no log entry. Every
  other invocation that returns has made exactly one \<open>CreateACMETaskLog\<close> call, with
  the success flag and the message it returns (the error of that call is only
  reported to the operational log).
\<close>

theorem RunTaskAndAutoBindServer_logs_once:
  "(taskId \<in> runningTaskMap s \<longrightarrow>
      RunTaskAndAutoBindServer env s taskId domains = Returns s (True, NoMsg)) \<and>
   (taskId \<notin> runningTaskMap s \<and>
      RunTaskAndAutoBindServer env s taskId domains = Returns s' (isOk, msg) \<longrightarrow>
      logs_of s' = logs_of s @ [CreateACMETaskLog taskId isOk msg])"
proof (intro conjI impI)
  assume "taskId \<in> runningTaskMap s"
  then show "RunTaskAndAutoBindServer env s taskId domains = Returns s (True, NoMsg)"
    by (simp add: RunTaskAndAutoBindServer_def)
next
  assume "taskId \<notin> runningTaskMap s \<and>
      RunTaskAndAutoBindServer env s taskId domains = Returns s' (isOk, msg)"
  then have n: "taskId \<notin> runningTaskMap s"
    and "RunTaskAndAutoBindServer env s taskId domains = Returns s' (isOk, msg)" by simp_all
  then have a: "(case runTaskWithoutLog env s taskId True of
        Panics s' \<Rightarrow> Panics s'
      | Returns s1 (isOk, msg, resultCertId) \<Rightarrow>
          (let s2 = writeTaskLog env s1 taskId isOk msg in
           if \<not> isOk
           then Returns (logError (UpdateStatus env s2 taskId ACMETaskStatusIssueFailed)) (isOk, msg)
           else
             (let s3 = logError (UpdateStatus env s2 taskId ACMETaskStatusDone)
              in case FindEnabledSSLCert env s3 resultCertId of
                   Inl e \<Rightarrow> Returns (emit (LogsError e) s3) (isOk, msg)
                 | Inr newCert \<Rightarrow>
                     (case scanDomains env domains newCert resultCertId domains [] {} s3 of
                        Panics s' \<Rightarrow> Panics s'
                      | Returns s4 serverMap \<Rightarrow>
                          (case bindServers env serverMap s4 of
                             Panics s' \<Rightarrow> Panics s'
                           | Returns s5 u \<Rightarrow> Returns s5 (isOk, msg)))))) = Returns s' (isOk, msg)"
    by (simp add: RunTaskAndAutoBindServer_def)
  show "logs_of s' = logs_of s @ [CreateACMETaskLog taskId isOk msg]"
  proof (cases "runTaskWithoutLog env s taskId True")
    case (Panics s1)
    with a show ?thesis by simp
  next
    case (Returns s1 r)
    obtain ok m cid where r: "r = (ok, m, cid)" by (cases r)
    have l1: "logs_of s1 = logs_of s"
      using logs_of_runTaskWithoutLog [of env s taskId True] Returns by simp
    let ?s2 = "writeTaskLog env s1 taskId ok m"
    have l2: "logs_of ?s2 = logs_of s @ [CreateACMETaskLog taskId ok m]"
      using l1 by (simp add: logs_of_writeTaskLog)
    show ?thesis
    proof (cases ok)
      case False
      with a Returns r have "s' = logError (UpdateStatus env ?s2 taskId ACMETaskStatusIssueFailed)"
        and "isOk = ok" and "msg = m"
        by auto
      with l2 show ?thesis by simp
    next
      case True
      let ?t2 = "writeTaskLog env s1 taskId True m"
      let ?s3 = "logError (UpdateStatus env ?t2 taskId ACMETaskStatusDone)"
      have l3: "logs_of ?s3 = logs_of s @ [CreateACMETaskLog taskId True m]"
        using l2 True by simp
      from r True have r': "r = (True, m, cid)" by simp
      from a Returns r' have e: "(case FindEnabledSSLCert env ?s3 cid of
                   Inl e \<Rightarrow> Returns (emit (LogsError e) ?s3) (True, m)
                 | Inr newCert \<Rightarrow>
                     (case scanDomains env domains newCert cid domains [] {} ?s3 of
                        Panics s' \<Rightarrow> Panics s'
                      | Returns s4 serverMap \<Rightarrow>
                          (case bindServers env serverMap s4 of
                             Panics s' \<Rightarrow> Panics s'
                           | Returns s5 u \<Rightarrow> Returns s5 (True, m)))) = Returns s' (isOk, msg)"
        by (simp add: Let_def)
      show ?thesis
      proof (cases "FindEnabledSSLCert env ?s3 cid")
        case (Inl e')
        with e l3 show ?thesis by auto
      next
        case (Inr newCert)
        show ?thesis
        proof (cases "scanDomains env domains newCert cid domains [] {} ?s3")
          case (Panics s4)
          with e Inr show ?thesis by simp
        next
          case sd: (Returns s4 serverMap)
          have l4: "logs_of s4 = logs_of ?s3"
            using scanDomains_frame [of env domains newCert cid domains "[]" "{}" ?s3] sd by simp
          show ?thesis
          proof (cases "bindServers env serverMap s4")
            case (Panics s5)
            with e Inr sd show ?thesis by simp
          next
            case bs: (Returns s5 u)
            have l5: "logs_of s5 = logs_of s4"
              using bindServers_frame [of env serverMap s4] bs by simp
            from e Inr sd bs have "s' = s5" "isOk = True" "msg = m" by auto
            with l5 l4 l3 show ?thesis by simp
          qed
        qed
      qed
    qed
  qed
qed

theorem RunTaskAndAutoBindServer_logs_once_witness:
  "1 \<notin> runningTaskMap s_pending \<and>
   RunTaskAndAutoBindServer env_ok s_pending 1 [''a.example.com''] =
     Returns \<lparr> tasks = [task1\<lparr>task_Status := ACMETaskStatusDone, task_CertId := 7\<rparr>],
               runningTaskMap = {},
               trace = [CreateAuth 1 ''a.example.com'' ''tok'' ''tok.thumb'',
                        CreateCert 0 2 [] ''CERT'' ''KEY'' info1, UpdateCertACME 7 1,
                        CreateACMETaskLog 1 True NoMsg] \<rparr> (True, NoMsg) \<and>
   logs_of \<lparr> tasks = [task1\<lparr>task_Status := ACMETaskStatusDone, task_CertId := 7\<rparr>],
             runningTaskMap = {},
             trace = [CreateAuth 1 ''a.example.com'' ''tok'' ''tok.thumb'',
                      CreateCert 0 2 [] ''CERT'' ''KEY'' info1, UpdateCertACME 7 1,
                      CreateACMETaskLog 1 True NoMsg] \<rparr> =
     logs_of s_pending @ [CreateACMETaskLog 1 True NoMsg]"
proof -
  have r: "RunTaskAndAutoBindServer env_ok s_pending 1 [''a.example.com''] =
     Returns \<lparr> tasks = [task1\<lparr>task_Status := ACMETaskStatusDone, task_CertId := 7\<rparr>],
               runningTaskMap = {},
               trace = [CreateAuth 1 ''a.example.com'' ''tok'' ''tok.thumb'',
                        CreateCert 0 2 [] ''CERT'' ''KEY'' info1, UpdateCertACME 7 1,
                        CreateACMETaskLog 1 True NoMsg] \<rparr> (True, NoMsg)"
    by (simp add: RunTaskAndAutoBindServer_def scen_defs run_defs)
  have n: "1 \<notin> runningTaskMap s_pending" by (simp add: s_pending_def)
  from RunTaskAndAutoBindServer_logs_once [of 1 s_pending env_ok "[''a.example.com'']" _ True NoMsg]
    n r show ?thesis by simp
qed

section \<open>Status done and the certificate reference\<close>

lemma done_has_cert_tasks: "tasks s' = tasks s \<Longrightarrow> done_has_cert s' = done_has_cert s"
  by (simp add: done_has_cert_def)

lemma done_has_cert_status:
  assumes "done_has_cert s" and "status \<noteq> ACMETaskStatusDone"
  shows "done_has_cert (logError (UpdateStatus env s pk status))"
  using assms by (auto simp: done_has_cert_def tasks_UpdateStatus)

lemma done_has_cert_done:
  assumes "done_has_cert s" and "\<forall>t \<in> set (tasks s). task_Id t = pk \<longrightarrow> task_CertId t \<noteq> 0"
  shows "done_has_cert (logError (UpdateStatus env s pk ACMETaskStatusDone))"
  using assms by (auto simp: done_has_cert_def tasks_UpdateStatus)

lemma tasks_saveCert:
  assumes "saveCert env s task taskId certData keyData = (s', ok, m, cid)"
  shows "tasks s' = tasks s \<or>
         tasks s' = map (\<lambda>t. if task_Id t = taskId then t\<lparr>task_State := ACMETaskStateDisabled\<rparr> else t) (tasks s) \<or>
         (tasks s' = map (\<lambda>t. if task_Id t = taskId then t\<lparr>task_CertId := cid\<rparr> else t) (tasks s) \<and>
          ok \<and> task_CertId task \<le> 0 \<and> CreateCert_result env s = (cid, None))"
  using assms
  by (auto simp: saveCert_def Let_def DisableACMETask_def UpdateACMETaskCert_def
      split: option.splits sum.splits prod.splits if_splits)

lemma saveCert_ok:
  assumes "saveCert env s task taskId certData keyData = (s', True, m, cid)"
  shows "(cid = task_CertId task \<and> 0 < cid \<and> tasks s' = tasks s) \<or>
         (tasks s' = map (\<lambda>t. if task_Id t = taskId then t\<lparr>task_CertId := cid\<rparr> else t) (tasks s) \<and>
          CreateCert_result env s = (cid, None))"
  using assms
  by (auto simp: saveCert_def Let_def DisableACMETask_def UpdateACMETaskCert_def
      split: option.splits sum.splits prod.splits if_splits)

lemma positive_cert_idsD:
  "positive_cert_ids env \<Longrightarrow> CreateCert_result env s = (cid, None) \<Longrightarrow> 0 < cid"
  by (auto simp: positive_cert_ids_def dest: spec [of _ s])

lemma done_has_cert_saveCert:
  assumes "done_has_cert s" and "positive_cert_ids env"
  shows "done_has_cert (fst (saveCert env s task taskId certData keyData))"
proof -
  obtain s' ok m cid where r: "saveCert env s task taskId certData keyData = (s', ok, m, cid)"
    by (metis prod_cases4)
  from tasks_saveCert [OF r] show ?thesis
  proof (elim disjE conjE)
    assume "tasks s' = tasks s"
    with assms(1) r show ?thesis by (simp add: done_has_cert_def)
  next
    assume "tasks s' = map (\<lambda>t. if task_Id t = taskId then t\<lparr>task_State := ACMETaskStateDisabled\<rparr> else t) (tasks s)"
    with assms(1) r show ?thesis by (auto simp: done_has_cert_def)
  next
    assume t: "tasks s' = map (\<lambda>t. if task_Id t = taskId then t\<lparr>task_CertId := cid\<rparr> else t) (tasks s)"
      and c: "CreateCert_result env s = (cid, None)"
    from positive_cert_idsD [OF assms(2) c] have "cid \<noteq> 0" by simp
    with assms(1) r t show ?thesis by (auto simp: done_has_cert_def)
  qed
qed

text \<open>The run, cut at the point where the certificate is recorded.\<close>

lemma runTaskWithoutLog_cases:
  obtains
    (early) "state_of (runTaskWithoutLog env s taskId r) = s"
      "\<forall>s' m cid. runTaskWithoutLog env s taskId r \<noteq> Returns s' (True, m, cid)"
  | (failed) "tasks (state_of (runTaskWithoutLog env s taskId r)) =
               tasks (logError (UpdateStatus env s taskId ACMETaskStatusRunning))"
      "\<forall>s' m cid. runTaskWithoutLog env s taskId r \<noteq> Returns s' (True, m, cid)"
  | (saved) task s2 certData keyData where
      "FindEnabledACMETask env s taskId = Inr (Some task)"
      "task_Status task \<noteq> ACMETaskStatusDone"
      "tasks s2 = tasks (logError (UpdateStatus env s taskId ACMETaskStatusRunning))"
      "runTaskWithoutLog env s taskId r = Returns (fst (saveCert env s2 task taskId certData keyData))
                                            (snd (saveCert env s2 task taskId certData keyData))"
proof -
  let ?s1 = "logError (UpdateStatus env s taskId ACMETaskStatusRunning)"
  have run: "\<And>task job s2 x. acmeRequest_Run env task taskId job ?s1 = Returns s2 x \<Longrightarrow> tasks s2 = tasks ?s1"
    using acmeRequest_Run_frame by (metis state_of.simps(1))
  have runp: "\<And>task job s2. acmeRequest_Run env task taskId job ?s1 = Panics s2 \<Longrightarrow> tasks s2 = tasks ?s1"
    using acmeRequest_Run_frame by (metis state_of.simps(2))
  show ?thesis
  proof (cases "FindEnabledACMETask env s taskId")
    case (Inl e)
    then show ?thesis by (intro early) (simp_all add: runTaskWithoutLog_def)
  next
    case (Inr found)
    show ?thesis
    proof (cases found)
      case None
      with Inr show ?thesis by (intro early) (simp_all add: runTaskWithoutLog_def)
    next
      case (Some task)
      show ?thesis
      proof (cases "\<not> task_IsOn task \<or> task_Status task = ACMETaskStatusDone")
        case True
        with Inr Some show ?thesis by (intro early) (auto simp: runTaskWithoutLog_def)
      next
        case False
        then have on: "task_IsOn task" and nd: "task_Status task \<noteq> ACMETaskStatusDone" by simp_all
        show ?thesis
        proof (cases "resolveUser env ?s1 task r")
          case (Inl m)
          with Inr Some on nd show ?thesis
            by (intro failed) (simp_all add: runTaskWithoutLog_def Let_def)
        next
          case u: (Inr user)
          show ?thesis
          proof (cases "buildAcmeTask env ?s1 task user")
            case (Failed m)
            with Inr Some on nd u show ?thesis
              by (intro failed) (simp_all add: runTaskWithoutLog_def Let_def)
          next
            case NilTask
            with Inr Some on nd u show ?thesis
              by (intro failed) (simp_all add: runTaskWithoutLog_def Let_def)
          next
            case (Resolved job)
            show ?thesis
            proof (cases "acmeRequest_Run env task taskId job ?s1")
              case (Panics s2)
              with Inr Some on nd u Resolved runp [OF Panics] show ?thesis
                by (intro failed) (simp_all add: runTaskWithoutLog_def Let_def)
            next
              case (Returns s2 x)
              show ?thesis
              proof (cases x)
                case (Inl e)
                with Inr Some on nd u Resolved Returns run [OF Returns] show ?thesis
                  by (intro failed) (simp_all add: runTaskWithoutLog_def Let_def)
              next
                case ck: (Inr p)
                obtain certData keyData where p: "p = (certData, keyData)" by (cases p)
                have "runTaskWithoutLog env s taskId r =
                        Returns (fst (saveCert env s2 task taskId certData keyData))
                                (snd (saveCert env s2 task taskId certData keyData))"
                  using Inr Some on nd u Resolved Returns ck p
                  by (simp add: runTaskWithoutLog_def Let_def split: prod.splits)
                with Inr Some nd run [OF Returns] show ?thesis
                  by (intro saved [of task s2 certData keyData]) simp_all
              qed
            qed
          qed
        qed
      qed
    qed
  qed
qed

lemma done_has_cert_runTaskWithoutLog:
  assumes "done_has_cert s" and "positive_cert_ids env"
  shows "done_has_cert (state_of (runTaskWithoutLog env s taskId r))"
proof (cases rule: runTaskWithoutLog_cases [of env s taskId r])
  case early
  with assms(1) show ?thesis by simp
next
  case failed
  have "done_has_cert (logError (UpdateStatus env s taskId ACMETaskStatusRunning))"
    using assms(1) by (rule done_has_cert_status) simp
  with failed(1) show ?thesis by (simp add: done_has_cert_def)
next
  case (saved task s2 certData keyData)
  have "done_has_cert (logError (UpdateStatus env s taskId ACMETaskStatusRunning))"
    using assms(1) by (rule done_has_cert_status) simp
  with saved(3) have "done_has_cert s2" by (simp add: done_has_cert_def)
  from done_has_cert_saveCert [OF this assms(2)] saved(4) show ?thesis by simp
qed


lemma find_unique:
  assumes "distinct (map task_Id ts)"
      and "find (\<lambda>t. task_Id t = k \<and> Q t) ts = Some task"
      and "t \<in> set ts" and "task_Id t = k"
  shows "t = task"
proof -
  from assms(2) have "task \<in> set ts" and "task_Id task = k"
    by (auto simp: find_Some_iff)
  moreover from assms(1) have "inj_on task_Id (set ts)" by (simp add: distinct_map)
  ultimately show ?thesis using assms(3,4) by (simp add: inj_on_def)
qed

text \<open>After a successful run the task carries the certificate the run returns, and is not done.\<close>

lemma runTaskWithoutLog_bound:
  assumes d: "distinct (map task_Id (tasks s))" and p: "positive_cert_ids env"
      and ok: "runTaskWithoutLog env s taskId r = Returns s' (True, m, cid)"
      and t': "t' \<in> set (tasks s')" and i: "task_Id t' = taskId"
  shows "task_CertId t' = cid \<and> cid \<noteq> 0 \<and> task_Status t' \<noteq> ACMETaskStatusDone"
proof (cases rule: runTaskWithoutLog_cases [of env s taskId r])
  case early
  with ok show ?thesis by simp
next
  case failed
  with ok show ?thesis by simp
next
  case (saved task s2 certData keyData)
  let ?s1 = "logError (UpdateStatus env s taskId ACMETaskStatusRunning)"
  from saved(1) have f: "find (\<lambda>t. task_Id t = taskId \<and> task_State t = ACMETaskStateEnabled) (tasks s)
                          = Some task"
    by (simp add: FindEnabledACMETask_def split: option.splits)
  have rows: "task_CertId t1 = task_CertId task \<and> task_Status t1 \<noteq> ACMETaskStatusDone"
    if "t1 \<in> set (tasks s2)" "task_Id t1 = taskId" for t1
  proof -
    from that(1) saved(3) have "t1 \<in> set (tasks ?s1)" by simp
    then obtain t where t: "t \<in> set (tasks s)"
      and t1: "t1 = t \<or> t1 = t\<lparr>task_Status := ACMETaskStatusRunning\<rparr>"
      by (auto simp: tasks_UpdateStatus split: if_splits)
    from t1 that(2) have "task_Id t = taskId" by auto
    from find_unique [OF d f t this] have "t = task" .
    with t1 saved(2) show ?thesis by auto
  qed
  from saved(4) ok have sv: "saveCert env s2 task taskId certData keyData = (s', True, m, cid)"
    by (metis outcome.inject(1) prod.collapse)
  from saveCert_ok [OF sv] show ?thesis
  proof (elim disjE conjE)
    assume "cid = task_CertId task" "0 < cid" "tasks s' = tasks s2"
    with rows [of t'] t' i show ?thesis by simp
  next
    assume ts: "tasks s' = map (\<lambda>t. if task_Id t = taskId then t\<lparr>task_CertId := cid\<rparr> else t) (tasks s2)"
      and c: "CreateCert_result env s2 = (cid, None)"
    from positive_cert_idsD [OF p c] have pos: "cid \<noteq> 0" by simp
    from t' ts obtain t1 where t1: "t1 \<in> set (tasks s2)"
      and e: "t' = (if task_Id t1 = taskId then t1\<lparr>task_CertId := cid\<rparr> else t1)" by auto
    from e i have i1: "task_Id t1 = taskId" by (auto split: if_splits)
    with e have "t' = t1\<lparr>task_CertId := cid\<rparr>" by simp
    with rows [OF t1 i1] pos show ?thesis by simp
  qed
qed

text \<open>
  Its status is running when the status update succeeded, and the status it had when
  that update failed (the error is only logged).
\<close>

lemma runTaskWithoutLog_status:
  assumes d: "distinct (map task_Id (tasks s))"
      and ok: "runTaskWithoutLog env s taskId r = Returns s' (True, m, cid)"
      and t': "t' \<in> set (tasks s')" and i: "task_Id t' = taskId"
  shows "\<exists>t0 \<in> set (tasks s). task_Id t0 = taskId \<and>
           task_Status t' = (if db_err env s (Op_UpdateStatus ACMETaskStatusRunning) = None
                             then ACMETaskStatusRunning else task_Status t0)"
proof (cases rule: runTaskWithoutLog_cases [of env s taskId r])
  case early
  with ok show ?thesis by simp
next
  case failed
  with ok show ?thesis by simp
next
  case (saved task s2 certData keyData)
  let ?s1 = "logError (UpdateStatus env s taskId ACMETaskStatusRunning)"
  let ?st = "if db_err env s (Op_UpdateStatus ACMETaskStatusRunning) = None
             then ACMETaskStatusRunning else task_Status task"
  from saved(1) have f: "find (\<lambda>t. task_Id t = taskId \<and> task_State t = ACMETaskStateEnabled) (tasks s)
                          = Some task"
    by (simp add: FindEnabledACMETask_def split: option.splits)
  then have tk: "task \<in> set (tasks s)" "task_Id task = taskId"
    by (auto simp: find_Some_iff)
  have rows: "task_Status t1 = ?st" if "t1 \<in> set (tasks s2)" "task_Id t1 = taskId" for t1
  proof -
    from that(1) saved(3) have m: "t1 \<in> set (tasks ?s1)" by simp
    show ?thesis
    proof (cases "db_err env s (Op_UpdateStatus ACMETaskStatusRunning) = None")
      case True
      with m obtain t where t: "t \<in> set (tasks s)"
        and t1: "t1 = (if task_Id t = taskId then t\<lparr>task_Status := ACMETaskStatusRunning\<rparr> else t)"
        by (auto simp: tasks_UpdateStatus)
      from t1 that(2) have "task_Id t = taskId" by (auto split: if_splits)
      with t1 True show ?thesis by simp
    next
      case False
      with m have t: "t1 \<in> set (tasks s)" by (simp add: tasks_UpdateStatus)
      from find_unique [OF d f t that(2)] False show ?thesis by auto
    qed
  qed
  from saved(4) ok have sv: "saveCert env s2 task taskId certData keyData = (s', True, m, cid)"
    by (metis outcome.inject(1) prod.collapse)
  have "task_Status t' = ?st"
    using saveCert_ok [OF sv]
  proof (elim disjE conjE)
    assume "tasks s' = tasks s2"
    with rows [of t'] t' i show ?thesis by simp
  next
    assume ts: "tasks s' = map (\<lambda>t. if task_Id t = taskId then t\<lparr>task_CertId := cid\<rparr> else t) (tasks s2)"
    from t' ts obtain t1 where t1: "t1 \<in> set (tasks s2)"
      and e: "t' = (if task_Id t1 = taskId then t1\<lparr>task_CertId := cid\<rparr> else t1)" by auto
    from e i have i1: "task_Id t1 = taskId" by (auto split: if_splits)
    with e have "t' = t1\<lparr>task_CertId := cid\<rparr>" by simp
    with rows [OF t1 i1] show ?thesis by simp
  qed
  with tk show ?thesis by (intro bexI [of _ task]) simp_all
qed

text \<open>Binding servers leaves the task table alone: the table after the guarded entry point.\<close>

lemma tasks_RunTaskAndAutoBindServer:
  "tasks (state_of (RunTaskAndAutoBindServer env s taskId domains)) =
     (if taskId \<in> runningTaskMap s then tasks s
      else case runTaskWithoutLog env s taskId True of
        Panics s1 \<Rightarrow> tasks s1
      | Returns s1 (isOk, msg, cid) \<Rightarrow>
          tasks (logError (UpdateStatus env (writeTaskLog env s1 taskId isOk msg) taskId
                    (if isOk then ACMETaskStatusDone else ACMETaskStatusIssueFailed))))"
proof (cases "taskId \<in> runningTaskMap s")
  case True
  then show ?thesis by (simp add: RunTaskAndAutoBindServer_def)
next
  case n: False
  show ?thesis
  proof (cases "runTaskWithoutLog env s taskId True")
    case (Panics s1)
    with n show ?thesis by (simp add: RunTaskAndAutoBindServer_def)
  next
    case (Returns s1 res)
    obtain ok m cid where res: "res = (ok, m, cid)" by (cases res)
    show ?thesis
    proof (cases ok)
      case False
      with n Returns res show ?thesis by (simp add: RunTaskAndAutoBindServer_def)
    next
      case True
      let ?s3 = "logError (UpdateStatus env (writeTaskLog env s1 taskId True m) taskId ACMETaskStatusDone)"
      have bind: "tasks (state_of (case FindEnabledSSLCert env ?s3 cid of
                   Inl e \<Rightarrow> Returns (emit (LogsError e) ?s3) (True, m)
                 | Inr newCert \<Rightarrow>
                     (case scanDomains env domains newCert cid domains [] {} ?s3 of
                        Panics s' \<Rightarrow> Panics s'
                      | Returns s4 serverMap \<Rightarrow>
                          (case bindServers env serverMap s4 of
                             Panics s' \<Rightarrow> Panics s'
                           | Returns s5 u \<Rightarrow> Returns s5 (True, m))))) = tasks ?s3"
      proof (cases "FindEnabledSSLCert env ?s3 cid")
        case (Inl e)
        then show ?thesis by simp
      next
        case (Inr newCert)
        show ?thesis
        proof (cases "scanDomains env domains newCert cid domains [] {} ?s3")
          case (Panics s4)
          with Inr scanDomains_frame [of env domains newCert cid domains "[]" "{}" ?s3]
          show ?thesis by simp
        next
          case sd: (Returns s4 serverMap)
          with scanDomains_frame [of env domains newCert cid domains "[]" "{}" ?s3]
          have t4: "tasks s4 = tasks ?s3" by simp
          show ?thesis
          proof (cases "bindServers env serverMap s4")
            case (Panics s5)
            with Inr sd t4 bindServers_frame [of env serverMap s4] show ?thesis by simp
          next
            case (Returns s5 u)
            with Inr sd t4 bindServers_frame [of env serverMap s4] show ?thesis by simp
          qed
        qed
      qed
      from res True have res': "res = (True, m, cid)" by simp
      from n Returns res' bind show ?thesis
        by (simp add: RunTaskAndAutoBindServer_def Let_def)
    qed
  qed
qed

lemma done_has_cert_RunTaskAndAutoBindServer:
  assumes d: "distinct (map task_Id (tasks s))" and inv: "done_has_cert s"
      and p: "positive_cert_ids env"
  shows "done_has_cert (state_of (RunTaskAndAutoBindServer env s taskId domains))"
proof -
  have run: "done_has_cert (state_of (runTaskWithoutLog env s taskId True))"
    using inv p by (rule done_has_cert_runTaskWithoutLog)
  have "done_has_cert (logError (UpdateStatus env (writeTaskLog env s1 taskId isOk msg) taskId
                    (if isOk then ACMETaskStatusDone else ACMETaskStatusIssueFailed)))"
    if r: "runTaskWithoutLog env s taskId True = Returns s1 (isOk, msg, cid)" for s1 isOk msg cid
  proof -
    let ?s2 = "writeTaskLog env s1 taskId isOk msg"
    from run r have "done_has_cert s1" by simp
    then have i2: "done_has_cert ?s2" by (simp add: done_has_cert_def)
    show ?thesis
    proof (cases isOk)
      case False
      have "done_has_cert (logError (UpdateStatus env ?s2 taskId ACMETaskStatusIssueFailed))"
        using i2 by (rule done_has_cert_status) simp
      with False show ?thesis by simp
    next
      case True
      with r have r': "runTaskWithoutLog env s taskId True = Returns s1 (True, msg, cid)" by simp
      have "\<forall>t \<in> set (tasks ?s2). task_Id t = taskId \<longrightarrow> task_CertId t \<noteq> 0"
        using runTaskWithoutLog_bound [OF d p r'] by auto
      with i2 have "done_has_cert (logError (UpdateStatus env ?s2 taskId ACMETaskStatusDone))"
        by (rule done_has_cert_done)
      with True show ?thesis by simp
    qed
  qed
  with inv run show ?thesis
    by (simp add: done_has_cert_def tasks_RunTaskAndAutoBindServer
        split: outcome.splits prod.splits)
qed

lemma tasks_RunTask:
  "tasks (state_of (RunTask env s taskId)) = tasks (state_of (runTaskWithoutLog env s taskId False))"
  by (simp add: RunTask_def split: outcome.splits prod.splits)

text \<open>
  C1, as stated, fails: a pending task without certificate satisfies the stated
  invariant; after a successful \<open>RunTask\<close> it carries certificate 7 and its status is
  running, not done.
\<close>

theorem RunTask_cert_without_done_counterexample:
  "cert_implies_done s_pending \<and>
   RunTask env_ok s_pending 1 =
     Returns \<lparr> tasks = [task1\<lparr>task_Status := ACMETaskStatusRunning, task_CertId := 7\<rparr>],
               runningTaskMap = {},
               trace = [CreateAuth 1 ''a.example.com'' ''tok'' ''tok.thumb'',
                        CreateCert 0 2 [] ''CERT'' ''KEY'' info1, UpdateCertACME 7 1,
                        CreateACMETaskLog 1 True NoMsg] \<rparr> (True, NoMsg, 7) \<and>
   \<not> cert_implies_done (state_of (RunTask env_ok s_pending 1))"
proof -
  have r: "RunTask env_ok s_pending 1 =
     Returns \<lparr> tasks = [task1\<lparr>task_Status := ACMETaskStatusRunning, task_CertId := 7\<rparr>],
               runningTaskMap = {},
               trace = [CreateAuth 1 ''a.example.com'' ''tok'' ''tok.thumb'',
                        CreateCert 0 2 [] ''CERT'' ''KEY'' info1, UpdateCertACME 7 1,
                        CreateACMETaskLog 1 True NoMsg] \<rparr> (True, NoMsg, 7)"
    by (simp add: scen_defs run_defs)
  have a: "cert_implies_done s_pending"
    by (simp add: cert_implies_done_def s_pending_def task1_def)
  have b: "\<not> cert_implies_done (state_of (RunTask env_ok s_pending 1))"
    unfolding r by (simp add: cert_implies_done_def task1_def)
  from a r b show ?thesis by blast
qed

text \<open>
  C1, amended. The implication that holds is the converse: a task whose status is
  done has a certificate bound. With unique task ids and a certificate table that
  hands out positive ids, \<open>RunTask\<close> and \<open>RunTaskAndAutoBindServer\<close> preserve it,
  whether they return or panic. A successful \<open>RunTask\<close> binds the certificate id it
  returns to the task and leaves the task not done: its status is running when the
  status update at the start of the run succeeded, and the status it had before when
  that update failed.
\<close>

theorem run_preserves_done_has_cert:
  assumes "distinct (map task_Id (tasks s))" and "done_has_cert s" and "positive_cert_ids env"
  shows "done_has_cert (state_of (RunTask env s taskId)) \<and>
         done_has_cert (state_of (RunTaskAndAutoBindServer env s taskId domains)) \<and>
         (\<forall>s' msg certId. RunTask env s taskId = Returns s' (True, msg, certId) \<longrightarrow>
            certId \<noteq> 0 \<and>
            (\<forall>t \<in> set (tasks s'). task_Id t = taskId \<longrightarrow>
               task_CertId t = certId \<and> task_Status t \<noteq> ACMETaskStatusDone \<and>
               (\<exists>t0 \<in> set (tasks s). task_Id t0 = taskId \<and>
                  task_Status t =
                    (if db_err env s (Op_UpdateStatus ACMETaskStatusRunning) = None
                     then ACMETaskStatusRunning else task_Status t0))) \<and>
            (\<exists>t \<in> set (tasks s'). task_Id t = taskId))"
proof (intro conjI allI impI)
  have "done_has_cert (state_of (runTaskWithoutLog env s taskId False))"
    using assms(2,3) by (rule done_has_cert_runTaskWithoutLog)
  then show "done_has_cert (state_of (RunTask env s taskId))"
    by (simp add: done_has_cert_def tasks_RunTask)
next
  show "done_has_cert (state_of (RunTaskAndAutoBindServer env s taskId domains))"
    using assms by (rule done_has_cert_RunTaskAndAutoBindServer)
next
  fix s' msg certId
  assume r: "RunTask env s taskId = Returns s' (True, msg, certId)"
  then obtain s1 where r1: "runTaskWithoutLog env s taskId False = Returns s1 (True, msg, certId)"
    and s': "s' = writeTaskLog env s1 taskId True msg"
    by (auto simp: RunTask_def split: outcome.splits prod.splits)
  have ex: "\<exists>t \<in> set (tasks s1). task_Id t = taskId"
  proof (cases rule: runTaskWithoutLog_cases [of env s taskId False])
    case early
    with r1 show ?thesis by simp
  next
    case failed
    with r1 show ?thesis by simp
  next
    case (saved task s2 certData keyData)
    from saved(1) have "task \<in> set (tasks s)" "task_Id task = taskId"
      by (auto simp: FindEnabledACMETask_def find_Some_iff split: option.splits)
    then have "taskId \<in> set (map task_Id (tasks s))" by force
    moreover have "map task_Id (tasks s1) = map task_Id (tasks s)"
    proof -
      have a: "map task_Id (tasks s2) = map task_Id (tasks s)"
        unfolding saved(3) by (simp add: tasks_UpdateStatus o_def)
      from saved(4) r1 have sv: "saveCert env s2 task taskId certData keyData = (s1, True, msg, certId)"
        by (metis outcome.inject(1) prod.collapse)
      from saveCert_ok [OF sv] have "map task_Id (tasks s1) = map task_Id (tasks s2)"
        by (auto simp: o_def)
      with a show ?thesis by simp
    qed
    ultimately have "taskId \<in> set (map task_Id (tasks s1))" by simp
    then show ?thesis by auto
  qed
  show "certId \<noteq> 0"
    using ex runTaskWithoutLog_bound [OF assms(1,3) r1] by blast
  show "\<forall>t \<in> set (tasks s'). task_Id t = taskId \<longrightarrow>
               task_CertId t = certId \<and> task_Status t \<noteq> ACMETaskStatusDone \<and>
               (\<exists>t0 \<in> set (tasks s). task_Id t0 = taskId \<and>
                  task_Status t =
                    (if db_err env s (Op_UpdateStatus ACMETaskStatusRunning) = None
                     then ACMETaskStatusRunning else task_Status t0))"
  proof (intro ballI impI)
    fix t assume t: "t \<in> set (tasks s')" and i: "task_Id t = taskId"
    from t s' have t1: "t \<in> set (tasks s1)" by simp
    from runTaskWithoutLog_bound [OF assms(1,3) r1 t1 i]
      runTaskWithoutLog_status [OF assms(1) r1 t1 i]
    show "task_CertId t = certId \<and> task_Status t \<noteq> ACMETaskStatusDone \<and>
               (\<exists>t0 \<in> set (tasks s). task_Id t0 = taskId \<and>
                  task_Status t =
                    (if db_err env s (Op_UpdateStatus ACMETaskStatusRunning) = None
                     then ACMETaskStatusRunning else task_Status t0))"
      by simp
  qed
  show "\<exists>t \<in> set (tasks s'). task_Id t = taskId" using ex s' by simp
qed


text \<open>
  At the pending task: with the status update succeeding the task ends running with
  certificate 7, with the status update failing it ends pending with certificate 7.
\<close>

theorem run_preserves_done_has_cert_witness:
  "distinct (map task_Id (tasks s_pending)) \<and> done_has_cert s_pending \<and>
   positive_cert_ids env_ok \<and> positive_cert_ids env_status_down \<and>
   done_has_cert (state_of (RunTask env_ok s_pending 1)) \<and>
   done_has_cert (state_of (RunTaskAndAutoBindServer env_ok s_pending 1 [''a.example.com''])) \<and>
   tasks (state_of (RunTaskAndAutoBindServer env_ok s_pending 1 [''a.example.com''])) =
     [task1\<lparr>task_Status := ACMETaskStatusDone, task_CertId := 7\<rparr>] \<and>
   db_err env_ok s_pending (Op_UpdateStatus ACMETaskStatusRunning) = None \<and>
   RunTask env_ok s_pending 1 =
     Returns \<lparr> tasks = [task1\<lparr>task_Status := ACMETaskStatusRunning, task_CertId := 7\<rparr>],
               runningTaskMap = {},
               trace = [CreateAuth 1 ''a.example.com'' ''tok'' ''tok.thumb'',
                        CreateCert 0 2 [] ''CERT'' ''KEY'' info1, UpdateCertACME 7 1,
                        CreateACMETaskLog 1 True NoMsg] \<rparr> (True, NoMsg, 7) \<and>
   db_err env_status_down s_pending (Op_UpdateStatus ACMETaskStatusRunning) =
     Some ''connection refused'' \<and>
   RunTask env_status_down s_pending 1 =
     Returns \<lparr> tasks = [task1\<lparr>task_CertId := 7\<rparr>],
               runningTaskMap = {},
               trace = [LogsError ''connection refused'',
                        CreateAuth 1 ''a.example.com'' ''tok'' ''tok.thumb'',
                        CreateCert 0 2 [] ''CERT'' ''KEY'' info1, UpdateCertACME 7 1,
                        CreateACMETaskLog 1 True NoMsg] \<rparr> (True, NoMsg, 7) \<and>
   done_has_cert (state_of (RunTask env_status_down s_pending 1))"
proof -
  have h: "distinct (map task_Id (tasks s_pending))" "done_has_cert s_pending"
    "positive_cert_ids env_ok"
    by (simp_all add: s_pending_def done_has_cert_def task1_def positive_cert_ids_def env_ok_def)
  have h': "positive_cert_ids env_status_down"
    by (simp add: positive_cert_ids_def env_status_down_def env_ok_def)
  have a: "tasks (state_of (RunTaskAndAutoBindServer env_ok s_pending 1 [''a.example.com''])) =
     [task1\<lparr>task_Status := ACMETaskStatusDone, task_CertId := 7\<rparr>]"
    by (simp add: RunTaskAndAutoBindServer_def scen_defs run_defs)
  have b: "RunTask env_ok s_pending 1 =
     Returns \<lparr> tasks = [task1\<lparr>task_Status := ACMETaskStatusRunning, task_CertId := 7\<rparr>],
               runningTaskMap = {},
               trace = [CreateAuth 1 ''a.example.com'' ''tok'' ''tok.thumb'',
                        CreateCert 0 2 [] ''CERT'' ''KEY'' info1, UpdateCertACME 7 1,
                        CreateACMETaskLog 1 True NoMsg] \<rparr> (True, NoMsg, 7)"
    by (simp add: scen_defs run_defs)
  have c: "RunTask env_status_down s_pending 1 =
     Returns \<lparr> tasks = [task1\<lparr>task_CertId := 7\<rparr>],
               runningTaskMap = {},
               trace = [LogsError ''connection refused'',
                        CreateAuth 1 ''a.example.com'' ''tok'' ''tok.thumb'',
                        CreateCert 0 2 [] ''CERT'' ''KEY'' info1, UpdateCertACME 7 1,
                        CreateACMETaskLog 1 True NoMsg] \<rparr> (True, NoMsg, 7)"
    by (simp add: scen_defs run_defs)
  have e: "db_err env_ok s_pending (Op_UpdateStatus ACMETaskStatusRunning) = None"
    "db_err env_status_down s_pending (Op_UpdateStatus ACMETaskStatusRunning) =
       Some ''connection refused''"
    by (simp_all add: env_ok_def env_status_down_def)
  from run_preserves_done_has_cert [OF h, of 1 "[''a.example.com'']"]
  have 1: "done_has_cert (state_of (RunTask env_ok s_pending 1))"
    "done_has_cert (state_of (RunTaskAndAutoBindServer env_ok s_pending 1 [''a.example.com'']))"
    by blast+
  from run_preserves_done_has_cert [OF h(1,2) h', of 1 "[''a.example.com'']"]
  have 2: "done_has_cert (state_of (RunTask env_status_down s_pending 1))"
    by blast
  from h h' a b c e 1 2 show ?thesis by blast
qed

section \<open>Panics\<close>

text \<open>The callback panics exactly when the record was persisted, a callback URL is set,
  the body was encoded and \<open>http.NewRequest\<close> rejects the URL.\<close>

lemma OnAuth_Panics_iff:
  "(\<exists>s'. OnAuth env task taskId s (domain, token, keyAuth) = Panics s') \<longleftrightarrow>
     CreateAuth_err env s taskId domain = None \<and> task_AuthURL task \<noteq> [] \<and>
     (\<exists>authJSON. json_Marshal_auth env domain token keyAuth = Inr authJSON) \<and>
     http_NewRequest env (task_AuthURL task) \<noteq> None"
  by (auto simp: OnAuth_def Let_def split: option.splits sum.splits)

text \<open>
  C9. A task whose callback URL has no scheme: the authentication record is written,
  \<open>http.NewRequest\<close> fails, and the run panics, through \<open>RunTask\<close> and through
  \<open>RunTaskAndAutoBindServer\<close> alike, before any log entry is written.
\<close>

theorem RunTask_panics_on_rejected_auth_url:
  "tasks s_hook = [task1\<lparr>task_AuthURL := ''://callback''\<rparr>] \<and>
   http_NewRequest env_ok ''://callback'' = Some ''missing protocol scheme'' \<and>
   RunTask env_ok s_hook 1 =
     Panics \<lparr> tasks = [task1\<lparr>task_AuthURL := ''://callback'', task_Status := ACMETaskStatusRunning\<rparr>],
              runningTaskMap = {},
              trace = [CreateAuth 1 ''a.example.com'' ''tok'' ''tok.thumb''] \<rparr> \<and>
   RunTaskAndAutoBindServer env_ok s_hook 1 [''a.example.com''] =
     Panics \<lparr> tasks = [task1\<lparr>task_AuthURL := ''://callback'', task_Status := ACMETaskStatusRunning\<rparr>],
              runningTaskMap = {},
              trace = [CreateAuth 1 ''a.example.com'' ''tok'' ''tok.thumb''] \<rparr>"
  by (simp add: RunTaskAndAutoBindServer_def scen_defs run_defs)

text \<open>A task whose validation type is neither DNS nor HTTP panics as well (nil \<open>acmeTask\<close>).\<close>

lemma RunTask_panics_on_unknown_auth_type:
  "RunTask env_ok (s_pending\<lparr>tasks := [task1\<lparr>task_AuthType := ''tls-alpn''\<rparr>]\<rparr>) 1 =
     Panics \<lparr> tasks = [task1\<lparr>task_AuthType := ''tls-alpn'', task_Status := ACMETaskStatusRunning\<rparr>],
              runningTaskMap = {}, trace = [] \<rparr>"
  by (simp add: scen_defs run_defs)

section \<open>The in-flight set\<close>

text \<open>
  Nothing in the DAO writes \<open>runningTaskMap\<close>: the guarded entry point reads it once
  and leaves it as it found it, whether it returns or panics.
\<close>

lemma running_UpdateStatus [simp]:
  "runningTaskMap (logError (UpdateStatus env s pk status)) = runningTaskMap s"
  by (simp add: UpdateStatus_def split: option.splits)

lemma running_writeTaskLog [simp]:
  "runningTaskMap (writeTaskLog env s taskId isOk msg) = runningTaskMap s"
  by (simp add: writeTaskLog_def)

lemma running_OnAuth:
  "runningTaskMap (state_of (OnAuth env task taskId s c)) = runningTaskMap s"
  by (cases c) (simp add: OnAuth_def Let_def split: option.splits sum.splits)

lemma running_runChallenges:
  "runningTaskMap (state_of (runChallenges env task taskId cs s)) = runningTaskMap s"
proof (induction cs arbitrary: s)
  case Nil
  then show ?case by simp
next
  case (Cons c cs)
  show ?case
  proof (cases "OnAuth env task taskId s c")
    case (Returns s' u)
    with running_OnAuth [of env task taskId s c] Cons.IH [of s'] show ?thesis by simp
  next
    case (Panics s')
    with running_OnAuth [of env task taskId s c] show ?thesis by simp
  qed
qed

lemma running_acmeRequest_Run:
  "runningTaskMap (state_of (acmeRequest_Run env task taskId job s)) = runningTaskMap s"
proof -
  let ?s1 = "onRegistration env job s"
  have "runningTaskMap ?s1 = runningTaskMap s"
    by (simp add: onRegistration_def split: option.splits sum.splits)
  then show ?thesis
    using running_runChallenges [of env task taskId "acme_challenges env ?s1 job" ?s1]
    by (cases "runChallenges env task taskId (acme_challenges env ?s1 job) ?s1")
       (simp_all add: acmeRequest_Run_def Let_def)
qed

lemma running_saveCert:
  "runningTaskMap (fst (saveCert env s task taskId certData keyData)) = runningTaskMap s"
  by (simp add: saveCert_def Let_def DisableACMETask_def UpdateACMETaskCert_def
      split: option.splits sum.splits prod.splits)

lemma running_runTaskWithoutLog:
  "runningTaskMap (state_of (runTaskWithoutLog env s taskId r)) = runningTaskMap s"
proof -
  let ?s1 = "logError (UpdateStatus env s taskId ACMETaskStatusRunning)"
  have run: "\<And>task job. runningTaskMap (state_of (acmeRequest_Run env task taskId job ?s1)) = runningTaskMap s"
    using running_acmeRequest_Run by simp
  have "\<And>task job s2 x. acmeRequest_Run env task taskId job ?s1 = Returns s2 x \<Longrightarrow>
          runningTaskMap s2 = runningTaskMap s"
    using run by (metis state_of.simps(1))
  moreover have "\<And>task job s2. acmeRequest_Run env task taskId job ?s1 = Panics s2 \<Longrightarrow>
          runningTaskMap s2 = runningTaskMap s"
    using run by (metis state_of.simps(2))
  moreover have "\<And>s2 task c k s3 r. saveCert env s2 task taskId c k = (s3, r) \<Longrightarrow>
          runningTaskMap s3 = runningTaskMap s2"
    using running_saveCert by (metis fst_conv)
  ultimately show ?thesis
    by (simp add: runTaskWithoutLog_def Let_def
        split: option.splits sum.splits prod.splits resolved.splits outcome.splits)
qed

lemma running_mergeCerts:
  "runningTaskMap (state_of (mergeCerts env domains newCert certs acc s)) = runningTaskMap s"
proof (induction certs arbitrary: acc s)
  case Nil
  then show ?case by simp
next
  case (Cons c certs)
  have "runningTaskMap (disableCert env s (cc_Id c)) = runningTaskMap s"
    by (simp add: disableCert_def)
  with Cons.IH [of acc "disableCert env s (cc_Id c)"] Cons.IH [of "acc @ [cc_Id c]" s]
  show ?case by (auto split: option.splits)
qed

lemma running_scanServers:
  "runningTaskMap (state_of (scanServers env domains newCert rid servers m dc s)) = runningTaskMap s"
proof (induction servers arbitrary: m dc s)
  case Nil
  then show ?case by simp
next
  case (Cons server servers)
  have mc: "\<And>certs s' ids. mergeCerts env domains newCert certs [] s = Returns s' ids \<Longrightarrow>
              runningTaskMap s' = runningTaskMap s"
    using running_mergeCerts by (metis state_of.simps(1))
  have mp: "\<And>certs s'. mergeCerts env domains newCert certs [] s = Panics s' \<Longrightarrow>
              runningTaskMap s' = runningTaskMap s"
    using running_mergeCerts by (metis state_of.simps(2))
  show ?case
    using Cons.IH mc mp
    by (simp split: option.splits sum.splits outcome.splits)
qed

lemma running_scanDomains:
  "runningTaskMap (state_of (scanDomains env domains newCert rid todo m dc s)) = runningTaskMap s"
proof (induction todo arbitrary: m dc s)
  case Nil
  then show ?case by simp
next
  case (Cons domain todo)
  have sr: "\<And>servers s' x. scanServers env domains newCert rid servers m dc s = Returns s' x \<Longrightarrow>
              runningTaskMap s' = runningTaskMap s"
    using running_scanServers by (metis state_of.simps(1))
  have sp: "\<And>servers s'. scanServers env domains newCert rid servers m dc s = Panics s' \<Longrightarrow>
              runningTaskMap s' = runningTaskMap s"
    using running_scanServers by (metis state_of.simps(2))
  show ?case
    using Cons.IH sr sp
    by (simp split: option.splits sum.splits outcome.splits prod.splits)
qed

lemma running_bindServers:
  "runningTaskMap (state_of (bindServers env m s)) = runningTaskMap s"
proof (induction m arbitrary: s)
  case Nil
  then show ?case by simp
next
  case (Cons p m)
  obtain serverId serverInfo where p: "p = (serverId, serverInfo)" by (cases p)
  show ?case
    unfolding p using Cons.IH
    by (simp add: Let_def split: option.splits sum.splits prod.splits)
qed

lemma RunTaskAndAutoBindServer_guard_hit:
  "taskId \<in> runningTaskMap s \<Longrightarrow>
     RunTaskAndAutoBindServer env s taskId domains = Returns s (True, NoMsg)"
  by (simp add: RunTaskAndAutoBindServer_def)

lemma running_RunTaskAndAutoBindServer:
  "runningTaskMap (state_of (RunTaskAndAutoBindServer env s taskId domains)) = runningTaskMap s"
proof (cases "taskId \<in> runningTaskMap s")
  case True
  then show ?thesis by (simp add: RunTaskAndAutoBindServer_def)
next
  case n: False
  show ?thesis
  proof (cases "runTaskWithoutLog env s taskId True")
    case (Panics s1)
    with n running_runTaskWithoutLog [of env s taskId True] show ?thesis
      by (simp add: RunTaskAndAutoBindServer_def)
  next
    case (Returns s1 res)
    with running_runTaskWithoutLog [of env s taskId True]
    have r1: "runningTaskMap s1 = runningTaskMap s" by simp
    obtain ok m cid where res: "res = (ok, m, cid)" by (cases res)
    show ?thesis
    proof (cases ok)
      case False
      with n Returns res r1 show ?thesis by (simp add: RunTaskAndAutoBindServer_def)
    next
      case True
      let ?s3 = "logError (UpdateStatus env (writeTaskLog env s1 taskId True m) taskId ACMETaskStatusDone)"
      have r3: "runningTaskMap ?s3 = runningTaskMap s" using r1 by simp
      have bind: "runningTaskMap (state_of (case FindEnabledSSLCert env ?s3 cid of
                   Inl e \<Rightarrow> Returns (emit (LogsError e) ?s3) (True, m)
                 | Inr newCert \<Rightarrow>
                     (case scanDomains env domains newCert cid domains [] {} ?s3 of
                        Panics s' \<Rightarrow> Panics s'
                      | Returns s4 serverMap \<Rightarrow>
                          (case bindServers env serverMap s4 of
                             Panics s' \<Rightarrow> Panics s'
                           | Returns s5 u \<Rightarrow> Returns s5 (True, m))))) = runningTaskMap ?s3"
      proof (cases "FindEnabledSSLCert env ?s3 cid")
        case (Inl e)
        then show ?thesis by simp
      next
        case (Inr newCert)
        show ?thesis
        proof (cases "scanDomains env domains newCert cid domains [] {} ?s3")
          case (Panics s4)
          with Inr running_scanDomains [of env domains newCert cid domains "[]" "{}" ?s3]
          show ?thesis by simp
        next
          case sd: (Returns s4 serverMap)
          with running_scanDomains [of env domains newCert cid domains "[]" "{}" ?s3]
          have t4: "runningTaskMap s4 = runningTaskMap ?s3" by simp
          show ?thesis
          proof (cases "bindServers env serverMap s4")
            case (Panics s5)
            with Inr sd t4 running_bindServers [of env serverMap s4] show ?thesis by simp
          next
            case (Returns s5 u)
            with Inr sd t4 running_bindServers [of env serverMap s4] show ?thesis by simp
          qed
        qed
      qed
      from res True have res': "res = (True, m, cid)" by simp
      from n Returns res' bind r3 show ?thesis
        by (simp add: RunTaskAndAutoBindServer_def Let_def)
    qed
  qed
qed

text \<open>
  C4. Two invocations for task 1, neither finding the id in the in-flight set. The
  second starts when the first has come back from \<open>runTaskWithoutLog\<close> and has not
  yet written its log entry. Since the first never put the id into the set, the second
  does not take the no-op exit: it runs the challenge and the issuance again and
  replaces the certificate just stored.
\<close>

theorem RunTaskAndAutoBindServer_runs_twice:
  "1 \<notin> runningTaskMap s_pending \<and>
   runTaskWithoutLog env_ok s_pending 1 True = Returns s_inflight (True, NoMsg, 7) \<and>
   1 \<notin> runningTaskMap s_inflight \<and>
   RunTaskAndAutoBindServer env_ok s_inflight 1 [''a.example.com''] =
     Returns \<lparr> tasks = [task1\<lparr>task_Status := ACMETaskStatusDone, task_CertId := 7\<rparr>],
               runningTaskMap = {},
               trace = trace s_inflight @
                 [CreateAuth 1 ''a.example.com'' ''tok'' ''tok.thumb'',
                  UpdateCert 7 cert7 ''CERT'' ''KEY'' info1,
                  CreateACMETaskLog 1 True NoMsg] \<rparr> (True, NoMsg)"
  by (simp add: RunTaskAndAutoBindServer_def scen_defs run_defs)

end
